theory Spec2Isabelle
  imports Complex_Main "HOL-Library.AList"
begin

section \<open>Data model\<close>

text \<open>
  The backend is JavaScript on Mongoose. Identifiers (Mongo ObjectIds, compared through
  \<^verbatim>\<open>toString()\<close>) are modelled as strings compared by value; where the code compares
  an ObjectId with a string without converting it, the two are kept apart (\<open>id_ref\<close>
  below). Strings are their UTF-8 bytes. A JavaScript
  \<^verbatim>\<open>Number\<close> is modelled as an exact \<^typ>\<open>real\<close>: comparisons, \<open>min\<close> and
  \<open>abs\<close> are the same on both, the rounding of IEEE doubles in \<open>+\<close>, \<open>*\<close> and \<open>/\<close>
  (a relative error of \<open>2 powr -53\<close> for each operation) and their overflow are outside
  the model, and the concrete inputs evaluated below are chosen so that every
  intermediate value is a dyadic rational that a double holds exactly. A division by
  zero, which gives \<^verbatim>\<open>NaN\<close> or an infinity, is written out where the code can reach
  one. Timestamps
  (\<^verbatim>\<open>Date.now()\<close>) are natural numbers handed to each operation. References that
  \<^verbatim>\<open>populate\<close> follows are taken to resolve. A field name that several schemas share
  carries the schema as a prefix (\<open>exp_\<close>, \<open>split_\<close>, \<open>payer_\<close>, \<open>member_\<close>, and
  \<open>body_\<close> for a request body).
\<close>

type_synonym user_id = string
type_synonym group_id = string
type_synonym expense_id = string
type_synonym settlement_id = string

text \<open>One element of \<^verbatim>\<open>expenseSchema.paidByMultiple\<close>.\<close>

record payer =
  payer_user :: user_id
  payer_amount :: real

text \<open>A number that may have come out of a division: a finite value, or \<^verbatim>\<open>NaN\<close> or an
  infinity.\<close>

datatype js_number = Finite real | NonFinite

text \<open>
  One element of \<^verbatim>\<open>expenseSchema.splits\<close>. The schema declares \<^verbatim>\<open>user\<close>,
  \<^verbatim>\<open>amount\<close>, \<^verbatim>\<open>percentage\<close> and \<^verbatim>\<open>isPaid\<close>. The last field,
  \<open>split_paid\<close>, is not a schema path: it is the ad-hoc JavaScript property \<^verbatim>\<open>paid\<close>
  that the expense controller sets on the in-memory document; it is \<open>None\<close> while the
  property is absent, and saving never writes it.
\<close>

record split =
  split_user :: user_id
  split_amount :: real
  split_percentage :: "js_number option"
  split_isPaid :: bool
  split_paid :: "bool option"

text \<open>The \<^verbatim>\<open>Expense\<close> document (\<^verbatim>\<open>expenseSchema\<close>); \<open>exp_group\<close> is \<open>None\<close> for a
  non-group expense.\<close>

record expense =
  exp_description :: string
  exp_amount :: real
  exp_currency :: string
  exp_paidBy :: user_id
  exp_paidByMultiple :: "payer list"
  exp_group :: "group_id option"
  exp_category :: string
  exp_date :: nat
  exp_splits :: "split list"
  exp_splitType :: string
  exp_notes :: string
  exp_receipt :: string
  exp_createdAt :: nat
  exp_updatedAt :: nat

text \<open>
  The plain objects pushed by \<^verbatim>\<open>calculateGroupSettlements\<close> carry the first five
  fields of \<^verbatim>\<open>settlementSchema\<close>; the \<^verbatim>\<open>Settlement\<close> document adds the rest
  (\<open>notes_text\<close> and \<open>pay_method\<close> are the schema's \<^verbatim>\<open>notes\<close> and
  \<^verbatim>\<open>method\<close>, reserved words here).
\<close>

record transfer =
  fromUser :: user_id
  toUser :: user_id
  group :: group_id
  amount :: real
  currency :: string

record settlement = transfer +
  status :: string
  pay_method :: string
  notes_text :: "string option"
  completedAt :: "nat option"
  createdAt :: nat
  updatedAt :: nat

section \<open>Balance aggregation and settlement generation\<close>

text \<open>
  \<^verbatim>\<open>userBalances\<close> is a JavaScript object keyed by user id. \<^verbatim>\<open>Object.keys\<close>
  lists string keys that are not array indices, as ids are, in insertion order, so the
  object is an association list with distinct keys:
  \<^const>\<open>AList.update\<close> overwrites the value of a present key in place and appends an absent
  key at the end, as the assignment \<^verbatim>\<open>userBalances[k] = v\<close> does.
\<close>

type_synonym balances = "(user_id \<times> real) list"

text \<open>\<^verbatim>\<open>userBalances[k] || 0\<close>\<close>

definition or_zero :: "balances \<Rightarrow> user_id \<Rightarrow> real" where
  "or_zero ub k = (case map_of ub k of None \<Rightarrow> 0 | Some v \<Rightarrow> v)"

text \<open>\<^verbatim>\<open>userBalances[userId] = (userBalances[userId] || 0) - split.amount\<close>, the body of
  the inner \<^verbatim>\<open>forEach\<close> (Settlement.js, lines 92-95).\<close>

definition subtract_split :: "balances \<Rightarrow> split \<Rightarrow> balances" where
  "subtract_split ub s =
     AList.update (split_user s) (or_zero ub (split_user s) - split_amount s) ub"

text \<open>The body of \<^verbatim>\<open>expenses.forEach\<close> (lines 86-96): the whole \<^verbatim>\<open>expense.amount\<close>
  is credited to \<^verbatim>\<open>expense.paidBy\<close>, then every split is subtracted.
  \<^verbatim>\<open>expense.paidByMultiple\<close> is not read.\<close>

definition add_expense :: "balances \<Rightarrow> expense \<Rightarrow> balances" where
  "add_expense ub e =
     (let paidBy = exp_paidBy e;
          ub1 = AList.update paidBy (or_zero ub paidBy + exp_amount e) ub
      in foldl subtract_split ub1 (exp_splits e))"

text \<open>Lines 84-96: \<^verbatim>\<open>const userBalances = {}\<close> followed by the loop over the expenses.\<close>

definition userBalances :: "expense list \<Rightarrow> balances" where
  "userBalances expenses = foldl add_expense [] expenses"

text \<open>
  The body of the inner \<^verbatim>\<open>for\<close> loop (lines 104-129) for one pair
  \<^verbatim>\<open>(user1, user2)\<close>. A missing key reads as \<^verbatim>\<open>undefined\<close>, for which both
  comparisons are false.
\<close>

definition pair_settlement :: "balances \<Rightarrow> group_id \<Rightarrow> user_id \<Rightarrow> user_id \<Rightarrow> transfer list" where
  "pair_settlement ub groupId user1 user2 =
     (case (map_of ub user1, map_of ub user2) of
        (Some balance1, Some balance2) \<Rightarrow>
          if balance1 > 0 \<and> balance2 < 0 then
            [\<lparr>fromUser = user1, toUser = user2, group = groupId,
              amount = min balance1 \<bar>balance2\<bar>, currency = ''LKR''\<rparr>]
          else if balance1 < 0 \<and> balance2 > 0 then
            [\<lparr>fromUser = user2, toUser = user1, group = groupId,
              amount = min \<bar>balance1\<bar> balance2, currency = ''LKR''\<rparr>]
          else []
      | _ \<Rightarrow> [])"

text \<open>The inner loop \<^verbatim>\<open>for (j = i + 1; j < users.length; j++)\<close>: \<open>rest\<close> is the
  part of \<^verbatim>\<open>users\<close> after position \<open>i\<close>.\<close>

fun inner_loop :: "balances \<Rightarrow> group_id \<Rightarrow> user_id \<Rightarrow> user_id list \<Rightarrow> transfer list" where
  "inner_loop ub groupId user1 [] = []"
| "inner_loop ub groupId user1 (user2 # rest) =
     pair_settlement ub groupId user1 user2 @ inner_loop ub groupId user1 rest"

text \<open>The outer loop \<^verbatim>\<open>for (i = 0; i < users.length; i++)\<close>.\<close>

fun outer_loop :: "balances \<Rightarrow> group_id \<Rightarrow> user_id list \<Rightarrow> transfer list" where
  "outer_loop ub groupId [] = []"
| "outer_loop ub groupId (user1 # rest) =
     inner_loop ub groupId user1 rest @ outer_loop ub groupId rest"

text \<open>Lines 98-133: \<^verbatim>\<open>users = Object.keys(userBalances)\<close> and the double loop.\<close>

definition generateSettlements :: "group_id \<Rightarrow> balances \<Rightarrow> transfer list" where
  "generateSettlements groupId ub = outer_loop ub groupId (map fst ub)"

text \<open>\<^verbatim>\<open>Settlement.calculateGroupSettlements(groupId)\<close>: \<open>all_expenses\<close> is the expense
  collection, of which \<^verbatim>\<open>Expense.find({ group: groupId })\<close> keeps the documents of the
  group.\<close>

definition calculateGroupSettlements :: "expense list \<Rightarrow> group_id \<Rightarrow> transfer list" where
  "calculateGroupSettlements all_expenses groupId =
     generateSettlements groupId
       (userBalances (filter (\<lambda>e. exp_group e = Some groupId) all_expenses))"

section \<open>Groups, the collections and Mongoose's save\<close>

text \<open>One element of \<^verbatim>\<open>groupSchema.members\<close> and the \<^verbatim>\<open>Group\<close> document.\<close>

record member =
  member_user :: user_id
  member_role :: string
  member_joinedAt :: nat

record group_doc =
  group_name :: string
  group_members :: "member list"

text \<open>\<^verbatim>\<open>groupSchema.methods.isMember\<close>\<close>

definition isMember :: "group_doc \<Rightarrow> user_id \<Rightarrow> bool" where
  "isMember g userId = list_ex (\<lambda>member. member_user member = userId) (group_members g)"

text \<open>The three collections; \<^verbatim>\<open>findById\<close> is \<^const>\<open>map_of\<close>.\<close>

record db =
  db_groups :: "(group_id \<times> group_doc) list"
  db_expenses :: "(expense_id \<times> expense) list"
  db_settlements :: "(settlement_id \<times> settlement) list"

text \<open>The responses other than success: status 404, 403 and 400 with their message, and
  the 500 of every \<^verbatim>\<open>catch\<close> block.\<close>

datatype http_error = NotFound string | AccessDenied | BadRequest string | ServerError

text \<open>
  The schema option \<^verbatim>\<open>trim: true\<close> is \<^verbatim>\<open>String.prototype.trim\<close>, which strips the
  white space and line terminators of ECMAScript from both ends. In UTF-8 these are the
  single bytes 09 to 0D and 20; U+00A0 (C2 A0); and the three-byte characters U+1680
  (E1 9A 80), U+2000 to U+200A, U+2028, U+2029, U+202F (E2 80 80 to 8A, A8, A9, AF), U+205F
  (E2 81 9F), U+3000 (E3 80 80) and U+FEFF (EF BB BF).
\<close>

definition space1 :: "char \<Rightarrow> bool" where
  "space1 a = (a \<in> set [CHR 0x09, CHR 0x0A, CHR 0x0B, CHR 0x0C, CHR 0x0D, CHR 0x20])"

definition space2 :: "char \<Rightarrow> char \<Rightarrow> bool" where
  "space2 a b = (a = CHR 0xC2 \<and> b = CHR 0xA0)"

definition space3 :: "char \<Rightarrow> char \<Rightarrow> char \<Rightarrow> bool" where
  "space3 a b c =
     ((a = CHR 0xE1 \<and> b = CHR 0x9A \<and> c = CHR 0x80) \<or>
      (a = CHR 0xE2 \<and> b = CHR 0x80 \<and>
         c \<in> set [CHR 0x80, CHR 0x81, CHR 0x82, CHR 0x83, CHR 0x84, CHR 0x85, CHR 0x86,
                  CHR 0x87, CHR 0x88, CHR 0x89, CHR 0x8A, CHR 0xA8, CHR 0xA9, CHR 0xAF]) \<or>
      (a = CHR 0xE2 \<and> b = CHR 0x81 \<and> c = CHR 0x9F) \<or>
      (a = CHR 0xE3 \<and> b = CHR 0x80 \<and> c = CHR 0x80) \<or>
      (a = CHR 0xEF \<and> b = CHR 0xBB \<and> c = CHR 0xBF))"

text \<open>Stripping from the front, and from the back on the reversed string.\<close>

fun strip_front :: "string \<Rightarrow> string" where
  "strip_front (a # b # c # s) =
     (if space1 a then strip_front (b # c # s)
      else if space2 a b then strip_front (c # s)
      else if space3 a b c then strip_front s
      else a # b # c # s)"
| "strip_front [a, b] =
     (if space1 a then strip_front [b] else if space2 a b then [] else [a, b])"
| "strip_front [a] = (if space1 a then [] else [a])"
| "strip_front [] = []"

fun strip_back :: "string \<Rightarrow> string" where
  "strip_back (c # b # a # s) =
     (if space1 c then strip_back (b # a # s)
      else if space2 b c then strip_back (a # s)
      else if space3 a b c then strip_back s
      else c # b # a # s)"
| "strip_back [b, a] =
     (if space1 b then strip_back [a] else if space2 a b then [] else [b, a])"
| "strip_back [a] = (if space1 a then [] else [a])"
| "strip_back [] = []"

definition trim :: "string \<Rightarrow> string" where
  "trim s = rev (strip_back (rev (strip_front s)))"

text \<open>
  The validators that \<^verbatim>\<open>expenseSchema\<close> declares, run by \<^verbatim>\<open>save()\<close>:
  \<^verbatim>\<open>required\<close> on the description, \<^verbatim>\<open>min: 0\<close> on the amounts, \<^verbatim>\<open>min: 0, max: 100\<close>
  on a percentage (which no \<^verbatim>\<open>NaN\<close> and no infinity passes), and the two \<^verbatim>\<open>enum\<close>s.
\<close>

definition valid_split :: "split \<Rightarrow> bool" where
  "valid_split s =
     (0 \<le> split_amount s \<and>
      (case split_percentage s of None \<Rightarrow> True
       | Some (Finite p) \<Rightarrow> 0 \<le> p \<and> p \<le> 100
       | Some NonFinite \<Rightarrow> False))"

definition validate_expense :: "expense \<Rightarrow> bool" where
  "validate_expense e =
     (exp_description e \<noteq> [] \<and> 0 \<le> exp_amount e \<and>
      list_all (\<lambda>p. 0 \<le> payer_amount p) (exp_paidByMultiple e) \<and>
      exp_category e \<in> set [''food'', ''transport'', ''entertainment'', ''shopping'', ''bills'', ''other''] \<and>
      list_all valid_split (exp_splits e) \<and>
      exp_splitType e \<in> set [''equal'', ''percentage'', ''custom''])"

text \<open>
  \<^verbatim>\<open>expense.save()\<close>: a failed validation rejects (\<open>None\<close>) and writes nothing.
  Otherwise the pre-save hook stamps \<^verbatim>\<open>updatedAt\<close> and the schema paths are written
  under the document's id; a property that is not a schema path is not written.
\<close>

definition persisted_expense :: "nat \<Rightarrow> expense \<Rightarrow> expense" where
  "persisted_expense now e =
     e\<lparr>exp_updatedAt := now, exp_splits := map (\<lambda>s. s\<lparr>split_paid := None\<rparr>) (exp_splits e)\<rparr>"

definition save_expense :: "db \<Rightarrow> expense_id \<Rightarrow> nat \<Rightarrow> expense \<Rightarrow> (expense \<times> db) option" where
  "save_expense d expenseId now e =
     (if validate_expense e then
        (let e' = persisted_expense now e
         in Some (e', d\<lparr>db_expenses := AList.update expenseId e' (db_expenses d)\<rparr>))
      else None)"

text \<open>The validators of \<^verbatim>\<open>settlementSchema\<close> and \<^verbatim>\<open>settlement.save()\<close> with its
  pre-save hook.\<close>

definition validate_settlement :: "settlement \<Rightarrow> bool" where
  "validate_settlement s =
     (0 \<le> amount s \<and> status s \<in> set [''pending'', ''completed'', ''cancelled''] \<and>
      pay_method s \<in> set [''cash'', ''bank_transfer'', ''digital_wallet'', ''other''])"

definition save_settlement :: "db \<Rightarrow> settlement_id \<Rightarrow> nat \<Rightarrow> settlement \<Rightarrow> (settlement \<times> db) option" where
  "save_settlement d settlementId now s =
     (if validate_settlement s then
        (let s' = s\<lparr>updatedAt := now\<rparr>
         in Some (s', d\<lparr>db_settlements := AList.update settlementId s' (db_settlements d)\<rparr>))
      else None)"

section \<open>The expense controller\<close>

text \<open>One element of \<^verbatim>\<open>req.body.customSplits\<close>: a percentage split reads
  \<^verbatim>\<open>percentage\<close>, a custom split reads \<^verbatim>\<open>amount\<close>.\<close>

record customSplit =
  cs_userId :: user_id
  cs_percentage :: real
  cs_amount :: real

text \<open>\<^verbatim>\<open>req.body\<close> of \<^verbatim>\<open>createExpense\<close>, after the defaults of the destructuring;
  \<open>body_groupId = None\<close> is an absent (falsy) \<^verbatim>\<open>groupId\<close>.\<close>

record create_body =
  body_description :: string
  body_amount :: real
  body_groupId :: "group_id option"
  body_category :: string
  body_date :: nat
  body_splitType :: string
  body_customSplits :: "customSplit list"
  body_notes :: string
  body_paidByMultiple :: "payer list"
  body_participants :: "user_id list"

text \<open>
  An element of \<^verbatim>\<open>expenseParticipants\<close>: an ObjectId taken from
  \<^verbatim>\<open>group.members\<close>, or a string (from \<^verbatim>\<open>req.body.participants\<close> or a
  \<^verbatim>\<open>toString()\<close>). \<^verbatim>\<open>Array.prototype.includes\<close> finds a string among strings of the
  same characters and never among ObjectIds. Assigned to \<^verbatim>\<open>splits.user\<close>, either is cast
  to the id.
\<close>

datatype id_ref = ObjectId user_id | IdString user_id

fun id_of :: "id_ref \<Rightarrow> user_id" where
  "id_of (ObjectId u) = u"
| "id_of (IdString u) = u"

text \<open>\<^verbatim>\<open>if (!expenseParticipants.includes(u)) expenseParticipants.push(u)\<close> for the string
  \<open>u\<close>.\<close>

definition push_if_absent :: "id_ref list \<Rightarrow> user_id \<Rightarrow> id_ref list" where
  "push_if_absent expenseParticipants u =
     (if IdString u \<in> set expenseParticipants then expenseParticipants
      else expenseParticipants @ [IdString u])"

text \<open>Lines 159-170 of expenseController.js: the payers are always in the split. On the
  group path the list holds ObjectIds, so every payer is appended, a member or not.\<close>

definition include_payers :: "id_ref list \<Rightarrow> payer list \<Rightarrow> user_id \<Rightarrow> id_ref list" where
  "include_payers expenseParticipants paidByMultiple requester =
     (if paidByMultiple \<noteq> [] then
        foldl push_if_absent expenseParticipants (map payer_user paidByMultiple)
      else push_if_absent expenseParticipants requester)"

text \<open>
  \<^verbatim>\<open>customSplits.reduce((sum, split) => sum + split.percentage, 0)\<close> and the same
  over \<^verbatim>\<open>split.amount\<close>, summed exactly. The code's sum of doubles is off by rounding,
  for percentages between 0 and 100 by orders of magnitude less than 0.001; so a sum check
  decided here at a distance of 0.001 or more from its threshold is decided the same way
  by the code, and one decided nearer to the threshold need not be.
\<close>

definition totalPercentage :: "customSplit list \<Rightarrow> real" where
  "totalPercentage customSplits = foldl (\<lambda>sum split. sum + cs_percentage split) 0 customSplits"

definition totalAmount :: "customSplit list \<Rightarrow> real" where
  "totalAmount customSplits = foldl (\<lambda>sum split. sum + cs_amount split) 0 customSplits"

text \<open>
  Lines 198-245: the splits for the three split types, or the 400 response of a failed
  sum check. Any other split type leaves \<^verbatim>\<open>expense.splits\<close> empty. In
  \<^verbatim>\<open>createExpense\<close> the participant list is never empty, so the division of the equal
  split is by a positive count; the percentage of a custom split divides by the amount,
  which may be zero. \<open>amt\<close> is the request's \<^verbatim>\<open>amount\<close>.
\<close>

definition calculate_splits ::
  "real \<Rightarrow> string \<Rightarrow> id_ref list \<Rightarrow> customSplit list \<Rightarrow> http_error + split list" where
  "calculate_splits amt splitType expenseParticipants customSplits =
     (if splitType = ''equal'' then
        (let memberCount = length expenseParticipants;
             splitAmount = amt / real memberCount
         in Inr (map (\<lambda>userId. \<lparr>split_user = id_of userId, split_amount = splitAmount,
                        split_percentage = None, split_isPaid = False, split_paid = None\<rparr>)
                  expenseParticipants))
      else if splitType = ''percentage'' then
        (if \<bar>totalPercentage customSplits - 100\<bar> > 1 / 100 then
           Inl (BadRequest ''Percentages must add up to 100%.'')
         else Inr (map (\<lambda>split. \<lparr>split_user = cs_userId split,
                         split_amount = (amt * cs_percentage split) / 100,
                         split_percentage = Some (Finite (cs_percentage split)),
                         split_isPaid = False, split_paid = None\<rparr>)
                   customSplits))
      else if splitType = ''custom'' then
        (if \<bar>totalAmount customSplits - amt\<bar> > 1 / 100 then
           Inl (BadRequest ''Custom split amounts must add up to the total expense amount.'')
         else Inr (map (\<lambda>split. \<lparr>split_user = cs_userId split,
                         split_amount = cs_amount split,
                         split_percentage =
                           Some (if amt = 0 then NonFinite
                                 else Finite ((cs_amount split / amt) * 100)),
                         split_isPaid = False, split_paid = None\<rparr>)
                   customSplits))
      else Inr [])"

text \<open>
  Lines 159-260 of \<^verbatim>\<open>createExpense\<close>, once the participants are determined: the
  payers join the participants, the document is built, the splits are calculated and the
  document is saved. \<open>newId\<close> is the id of the new document and \<open>now\<close> the clock. A
  failed sum check answers before anything is saved; a rejected save is answered by the
  \<^verbatim>\<open>catch\<close> block.
\<close>

definition create_with ::
  "db \<Rightarrow> user_id \<Rightarrow> expense_id \<Rightarrow> nat \<Rightarrow> create_body \<Rightarrow> id_ref list
     \<Rightarrow> (http_error + expense) \<times> db" where
  "create_with d requester newId now body participants0 =
     (let expenseParticipants =
            include_payers participants0 (body_paidByMultiple body) requester;
          primaryPayer =
            (case body_paidByMultiple body of [] \<Rightarrow> requester | p # _ \<Rightarrow> payer_user p);
          expense = \<lparr>exp_description = trim (body_description body),
                     exp_amount = body_amount body,
                     exp_currency = ''LKR'',
                     exp_paidBy = primaryPayer,
                     exp_paidByMultiple =
                       (if length (body_paidByMultiple body) > 1 then body_paidByMultiple body
                        else []),
                     exp_group = body_groupId body,
                     exp_category = body_category body,
                     exp_date = body_date body,
                     exp_splits = [],
                     exp_splitType = body_splitType body,
                     exp_notes = trim (body_notes body),
                     exp_receipt = [],
                     exp_createdAt = now,
                     exp_updatedAt = now\<rparr>
      in case calculate_splits (body_amount body) (body_splitType body)
                expenseParticipants (body_customSplits body) of
           Inl err \<Rightarrow> (Inl err, d)
         | Inr splits \<Rightarrow>
             (case save_expense d newId now (expense\<lparr>exp_splits := splits\<rparr>) of
                None \<Rightarrow> (Inl ServerError, d)
              | Some (saved, d') \<Rightarrow> (Inr saved, d')))"

text \<open>
  \<^verbatim>\<open>createExpense\<close> (expenseController.js, lines 118-265) for the authenticated user
  \<open>requester\<close>: the group and participant checks of lines 133-157, then the rest. The
  result is the response and the collections afterwards.
\<close>

definition createExpense ::
  "db \<Rightarrow> user_id \<Rightarrow> expense_id \<Rightarrow> nat \<Rightarrow> create_body \<Rightarrow> (http_error + expense) \<times> db" where
  "createExpense d requester newId now body =
     (case body_groupId body of
        Some groupId \<Rightarrow>
          (case map_of (db_groups d) groupId of
             None \<Rightarrow> (Inl (NotFound ''Group not found.''), d)
           | Some grp \<Rightarrow>
               if \<not> isMember grp requester then (Inl AccessDenied, d)
               else create_with d requester newId now body
                      (map (\<lambda>member. ObjectId (member_user member)) (group_members grp)))
      | None \<Rightarrow>
          if body_participants body \<noteq> [] then
            create_with d requester newId now body (map IdString (body_participants body))
          else (Inl (BadRequest ''No participants specified for expense.''), d))"

text \<open>\<^verbatim>\<open>split.paid = true\<close> on the element that \<^verbatim>\<open>expense.splits.find\<close> returned: the
  first split of the user.\<close>

fun set_paid :: "user_id \<Rightarrow> split list \<Rightarrow> split list" where
  "set_paid userId [] = []"
| "set_paid userId (s # ss) =
     (if split_user s = userId then s\<lparr>split_paid := Some True\<rparr> # ss
      else s # set_paid userId ss)"

text \<open>
  \<^verbatim>\<open>markSplitAsPaid\<close> of the controller (lines 295-334). A missing group makes
  \<^verbatim>\<open>group.isMember\<close> throw, which the \<^verbatim>\<open>catch\<close> block answers with 500.
\<close>

definition markSplitAsPaid ::
  "db \<Rightarrow> user_id \<Rightarrow> expense_id \<Rightarrow> user_id \<Rightarrow> nat \<Rightarrow> (http_error + expense) \<times> db" where
  "markSplitAsPaid d requester expenseId userId now =
     (case map_of (db_expenses d) expenseId of
        None \<Rightarrow> (Inl (NotFound ''Expense not found.''), d)
      | Some expense \<Rightarrow>
          (case (case exp_group expense of None \<Rightarrow> None | Some g \<Rightarrow> map_of (db_groups d) g) of
             None \<Rightarrow> (Inl ServerError, d)
           | Some grp \<Rightarrow>
               if \<not> isMember grp requester then (Inl AccessDenied, d)
               else
                 (case find (\<lambda>s. split_user s = userId) (exp_splits expense) of
                    None \<Rightarrow> (Inl (NotFound ''Split not found.''), d)
                  | Some split \<Rightarrow>
                      (case save_expense d expenseId now
                              (expense\<lparr>exp_splits := set_paid userId (exp_splits expense)\<rparr>) of
                         None \<Rightarrow> (Inl ServerError, d)
                       | Some (saved, d') \<Rightarrow> (Inr saved, d')))))"

section \<open>The settlement controller\<close>

text \<open>\<^verbatim>\<open>settlementSchema.methods.markCompleted\<close> and \<^verbatim>\<open>cancel\<close>, up to the
  \<^verbatim>\<open>save()\<close> that each of them starts.\<close>

definition markCompleted :: "nat \<Rightarrow> settlement \<Rightarrow> settlement" where
  "markCompleted now s = s\<lparr>status := ''completed'', completedAt := Some now\<rparr>"

definition cancel :: "settlement \<Rightarrow> settlement" where
  "cancel s = s\<lparr>status := ''cancelled''\<rparr>"

text \<open>\<^verbatim>\<open>req.body\<close> of \<^verbatim>\<open>updateSettlementStatus\<close>; \<open>None\<close> is \<^verbatim>\<open>undefined\<close>.\<close>

record status_body =
  body_status :: "string option"
  body_method :: "string option"
  body_notes_text :: "string option"

text \<open>
  Lines 327-336 of \<^verbatim>\<open>updateSettlementStatus\<close>: the assignments from the body (an
  absent or empty \<^verbatim>\<open>status\<close> or \<^verbatim>\<open>method\<close> is falsy and assigns nothing) and the
  call of \<^verbatim>\<open>markCompleted\<close> or \<^verbatim>\<open>cancel\<close>. The current status is never read.
\<close>

definition apply_body :: "nat \<Rightarrow> status_body \<Rightarrow> settlement \<Rightarrow> settlement" where
  "apply_body now body settlement =
     (let s1 = (case body_status body of
                  Some st \<Rightarrow> if st \<noteq> [] then settlement\<lparr>status := st\<rparr> else settlement
                | None \<Rightarrow> settlement);
          s2 = (case body_method body of
                  Some m \<Rightarrow> if m \<noteq> [] then s1\<lparr>pay_method := m\<rparr> else s1
                | None \<Rightarrow> s1);
          s3 = (case body_notes_text body of None \<Rightarrow> s2
                | Some n \<Rightarrow> s2\<lparr>notes_text := Some (trim n)\<rparr>)
      in if body_status body = Some ''completed'' then markCompleted now s3
         else if body_status body = Some ''cancelled'' then cancel s3
         else s3)"

text \<open>
  \<^verbatim>\<open>updateSettlementStatus\<close> (lines 309-355 of the settlement controller). For the
  statuses completed and cancelled, \<^verbatim>\<open>markCompleted()\<close> or \<^verbatim>\<open>cancel()\<close> has started a
  \<^verbatim>\<open>save()\<close> that nothing awaits, and the controller calls \<^verbatim>\<open>save()\<close> on the same
  document while that one is in flight: Mongoose rejects the second call
  (ParallelSaveError), which the \<^verbatim>\<open>catch\<close> block answers with 500, and the first save
  still validates and writes. For any other request there is the one awaited save.
\<close>

definition updateSettlementStatus ::
  "db \<Rightarrow> user_id \<Rightarrow> settlement_id \<Rightarrow> nat \<Rightarrow> status_body \<Rightarrow> (http_error + settlement) \<times> db" where
  "updateSettlementStatus d requester settlementId now body =
     (case map_of (db_settlements d) settlementId of
        None \<Rightarrow> (Inl (NotFound ''Settlement not found.''), d)
      | Some settlement \<Rightarrow>
          if fromUser settlement \<noteq> requester \<and> toUser settlement \<noteq> requester then
            (Inl AccessDenied, d)
          else if body_status body = Some ''completed'' \<or> body_status body = Some ''cancelled''
          then
            (Inl ServerError,
             case save_settlement d settlementId now (apply_body now body settlement) of
               None \<Rightarrow> d
             | Some (saved, d') \<Rightarrow> d')
          else
            (case save_settlement d settlementId now (apply_body now body settlement) of
               None \<Rightarrow> (Inl ServerError, d)
             | Some (saved, d') \<Rightarrow> (Inr saved, d')))"

section \<open>The quantities the properties speak of\<close>

text \<open>The money a participant receives and pays under a list of settlements, and the money
  moved by the settlements the participant is a party of.\<close>

definition received :: "transfer list \<Rightarrow> user_id \<Rightarrow> real" where
  "received ts p = sum_list (map amount (filter (\<lambda>t. toUser t = p) ts))"

definition paid_out :: "transfer list \<Rightarrow> user_id \<Rightarrow> real" where
  "paid_out ts p = sum_list (map amount (filter (\<lambda>t. fromUser t = p) ts))"

definition turnover :: "transfer list \<Rightarrow> user_id \<Rightarrow> real" where
  "turnover ts p = received ts p + paid_out ts p"

text \<open>What one pair contributes: the smaller magnitude when the two balances have strictly
  opposite signs, nothing otherwise.\<close>

definition pair_amount :: "real \<Rightarrow> real \<Rightarrow> real" where
  "pair_amount b1 b2 =
     (if (b1 > 0 \<and> b2 < 0) \<or> (b1 < 0 \<and> b2 > 0) then min \<bar>b1\<bar> \<bar>b2\<bar> else 0)"

text \<open>The sum of an expense's owed amounts, its distance from the expense amount, and the
  sum of the values of a balance mapping.\<close>

definition splits_total :: "expense \<Rightarrow> real" where
  "splits_total e = sum_list (map split_amount (exp_splits e))"

definition split_error :: "expense \<Rightarrow> real" where
  "split_error e = exp_amount e - splits_total e"

definition balance_total :: "balances \<Rightarrow> real" where
  "balance_total ub = sum_list (map snd ub)"

text \<open>A request that passes the group and participant checks at the head of
  \<^verbatim>\<open>createExpense\<close> and so reaches the split calculation.\<close>

definition admitted :: "db \<Rightarrow> user_id \<Rightarrow> create_body \<Rightarrow> bool" where
  "admitted d requester body =
     (case body_groupId body of
        Some g \<Rightarrow> (case map_of (db_groups d) g of None \<Rightarrow> False
                   | Some grp \<Rightarrow> isMember grp requester)
      | None \<Rightarrow> body_participants body \<noteq> [])"

text \<open>Percentages that are percentages, and a request whose other fields pass the
  validators of the schema.\<close>

definition percentages_in_range :: "customSplit list \<Rightarrow> bool" where
  "percentages_in_range cs = list_all (\<lambda>s. 0 \<le> cs_percentage s \<and> cs_percentage s \<le> 100) cs"

definition fields_valid :: "create_body \<Rightarrow> bool" where
  "fields_valid body =
     (trim (body_description body) \<noteq> [] \<and> 0 \<le> body_amount body \<and>
      body_category body \<in> set [''food'', ''transport'', ''entertainment'', ''shopping'', ''bills'', ''other''] \<and>
      list_all (\<lambda>p. 0 \<le> payer_amount p) (body_paidByMultiple body))"

text \<open>The 400 response of the percentage check.\<close>

definition percent_error :: http_error where
  "percent_error = BadRequest ''Percentages must add up to 100%.''"

section \<open>Concrete inputs\<close>

text \<open>A group of three, and the expense of 300 that \<open>A\<close> paid and the three share
  equally.\<close>

definition trip :: group_doc where
  "trip = \<lparr>group_name = ''trip'', group_members =
       [\<lparr>member_user = ''A'', member_role = ''admin'', member_joinedAt = 0\<rparr>,
        \<lparr>member_user = ''B'', member_role = ''member'', member_joinedAt = 0\<rparr>,
        \<lparr>member_user = ''C'', member_role = ''member'', member_joinedAt = 0\<rparr>]\<rparr>"

definition dinner_expense :: expense where
  "dinner_expense =
     \<lparr>exp_description = ''dinner'', exp_amount = 300, exp_currency = ''LKR'', exp_paidBy = ''A'',
      exp_paidByMultiple = [], exp_group = Some ''g'', exp_category = ''food'', exp_date = 0,
      exp_splits =
        [\<lparr>split_user = ''A'', split_amount = 100, split_percentage = None,
           split_isPaid = False, split_paid = None\<rparr>,
         \<lparr>split_user = ''B'', split_amount = 100, split_percentage = None,
           split_isPaid = False, split_paid = None\<rparr>,
         \<lparr>split_user = ''C'', split_amount = 100, split_percentage = None,
           split_isPaid = False, split_paid = None\<rparr>],
      exp_splitType = ''equal'', exp_notes = [], exp_receipt = [],
      exp_createdAt = 0, exp_updatedAt = 0\<rparr>"

text \<open>An expense of 100 to which \<open>A\<close> contributed 60 and \<open>B\<close> 40, shared equally.\<close>

definition shared_bill :: expense where
  "shared_bill =
     \<lparr>exp_description = ''hotel'', exp_amount = 100, exp_currency = ''LKR'', exp_paidBy = ''A'',
      exp_paidByMultiple = [\<lparr>payer_user = ''A'', payer_amount = 60\<rparr>,
                            \<lparr>payer_user = ''B'', payer_amount = 40\<rparr>],
      exp_group = Some ''g'', exp_category = ''other'', exp_date = 0,
      exp_splits =
        [\<lparr>split_user = ''A'', split_amount = 50, split_percentage = None,
           split_isPaid = False, split_paid = None\<rparr>,
         \<lparr>split_user = ''B'', split_amount = 50, split_percentage = None,
           split_isPaid = False, split_paid = None\<rparr>],
      exp_splitType = ''equal'', exp_notes = [], exp_receipt = [],
      exp_createdAt = 0, exp_updatedAt = 0\<rparr>"

text \<open>A custom split of 100 whose amounts fall short by \<open>1/128\<close>, inside the tolerance of
  the custom check.\<close>

definition rounded_bill :: expense where
  "rounded_bill =
     \<lparr>exp_description = ''taxi'', exp_amount = 100, exp_currency = ''LKR'', exp_paidBy = ''A'',
      exp_paidByMultiple = [], exp_group = Some ''g'', exp_category = ''transport'', exp_date = 0,
      exp_splits =
        [\<lparr>split_user = ''A'', split_amount = 50, split_percentage = Some (Finite 50),
           split_isPaid = False, split_paid = None\<rparr>,
         \<lparr>split_user = ''B'', split_amount = 50 - 1 / 128,
           split_percentage = Some (Finite (50 - 1 / 128)), split_isPaid = False, split_paid = None\<rparr>],
      exp_splitType = ''custom'', exp_notes = [], exp_receipt = [],
      exp_createdAt = 0, exp_updatedAt = 0\<rparr>"

text \<open>Two creditors and two debtors.\<close>

definition uneven :: balances where
  "uneven = [(''A'', 150), (''B'', 50), (''C'', - 100), (''D'', - 100)]"

text \<open>A settlement that \<open>B\<close> has paid to \<open>A\<close>, and the collections holding it.\<close>

definition paid_debt :: settlement where
  "paid_debt = \<lparr>fromUser = ''B'', toUser = ''A'', group = ''g'', amount = 100,
     currency = ''LKR'', status = ''completed'', pay_method = ''cash'', notes_text = None,
     completedAt = Some 3, createdAt = 1, updatedAt = 3\<rparr>"

definition ledger :: db where
  "ledger = \<lparr>db_groups = [(''g'', trip)], db_expenses = [(''e1'', dinner_expense)],
     db_settlements = [(''s1'', paid_debt)]\<rparr>"

definition cancel_request :: status_body where
  "cancel_request =
     \<lparr>body_status = Some ''cancelled'', body_method = None, body_notes_text = None\<rparr>"

definition reopen_request :: status_body where
  "reopen_request =
     \<lparr>body_status = Some ''pending'', body_method = None, body_notes_text = None\<rparr>"

definition note_request :: status_body where
  "note_request = \<lparr>body_status = None, body_method = Some ''bank_transfer'',
     body_notes_text = Some '' sent on Friday ''\<rparr>"

text \<open>A percentage request over 12800 whose percentages sum to \<open>100 + 1/128\<close>, the
  expense it creates, and three requests over 100: percentages 50, 30 and 20; percentages
  150 and \<open>-50\<close>; and percentages summing to 99.5.\<close>

definition big_dinner :: create_body where
  "big_dinner = \<lparr>body_description = ''banquet'', body_amount = 12800, body_groupId = Some ''g'',
     body_category = ''food'', body_date = 0, body_splitType = ''percentage'',
     body_customSplits = [\<lparr>cs_userId = ''A'', cs_percentage = 50, cs_amount = 0\<rparr>,
                          \<lparr>cs_userId = ''B'', cs_percentage = 50 + 1 / 128, cs_amount = 0\<rparr>],
     body_notes = [], body_paidByMultiple = [], body_participants = []\<rparr>"

definition banquet :: expense where
  "banquet =
     \<lparr>exp_description = ''banquet'', exp_amount = 12800, exp_currency = ''LKR'',
      exp_paidBy = ''A'', exp_paidByMultiple = [], exp_group = Some ''g'',
      exp_category = ''food'', exp_date = 0,
      exp_splits =
        [\<lparr>split_user = ''A'', split_amount = 6400, split_percentage = Some (Finite 50),
           split_isPaid = False, split_paid = None\<rparr>,
         \<lparr>split_user = ''B'', split_amount = 6401, split_percentage = Some (Finite (50 + 1 / 128)),
           split_isPaid = False, split_paid = None\<rparr>],
      exp_splitType = ''percentage'', exp_notes = [], exp_receipt = [],
      exp_createdAt = 9, exp_updatedAt = 9\<rparr>"

definition fair_percentages :: create_body where
  "fair_percentages = \<lparr>body_description = ''lunch'', body_amount = 100, body_groupId = Some ''g'',
     body_category = ''food'', body_date = 0, body_splitType = ''percentage'',
     body_customSplits = [\<lparr>cs_userId = ''A'', cs_percentage = 50, cs_amount = 0\<rparr>,
                          \<lparr>cs_userId = ''B'', cs_percentage = 30, cs_amount = 0\<rparr>,
                          \<lparr>cs_userId = ''C'', cs_percentage = 20, cs_amount = 0\<rparr>],
     body_notes = [], body_paidByMultiple = [], body_participants = []\<rparr>"

definition lopsided_percentages :: create_body where
  "lopsided_percentages = \<lparr>body_description = ''lunch'', body_amount = 100,
     body_groupId = Some ''g'', body_category = ''food'', body_date = 0,
     body_splitType = ''percentage'',
     body_customSplits = [\<lparr>cs_userId = ''A'', cs_percentage = 150, cs_amount = 0\<rparr>,
                          \<lparr>cs_userId = ''B'', cs_percentage = - 50, cs_amount = 0\<rparr>],
     body_notes = [], body_paidByMultiple = [], body_participants = []\<rparr>"

definition short_percentages :: create_body where
  "short_percentages = \<lparr>body_description = ''lunch'', body_amount = 100, body_groupId = Some ''g'',
     body_category = ''food'', body_date = 0, body_splitType = ''percentage'',
     body_customSplits = [\<lparr>cs_userId = ''A'', cs_percentage = 50, cs_amount = 0\<rparr>,
                          \<lparr>cs_userId = ''B'', cs_percentage = 49 + 1 / 2, cs_amount = 0\<rparr>],
     body_notes = [], body_paidByMultiple = [], body_participants = []\<rparr>"

section \<open>Balance aggregation\<close>

lemmas balance_defs = userBalances_def add_expense_def subtract_split_def or_zero_def

text \<open>
  Claim C4 (multi-payer aggregation: every payer of an expense is credited with the amount
  they paid). The aggregation reads \<^verbatim>\<open>paidBy\<close> and \<^verbatim>\<open>amount\<close> only. For the bill of 100
  to which \<open>A\<close> paid 60 and \<open>B\<close> paid 40, each owing 50, it credits the whole 100 to \<open>A\<close>:
  \<open>A\<close> stands at \<open>+50\<close> and \<open>B\<close> at \<open>-50\<close>, where crediting each payer with their own
  payment gives \<open>+10\<close> and \<open>-10\<close>.
\<close>

theorem multi_payer_credited_to_first:
  "userBalances [shared_bill] = [(''A'', 50), (''B'', - 50)]"
  by (simp add: balance_defs shared_bill_def)

text \<open>Whatever \<^verbatim>\<open>paidByMultiple\<close> holds, the balances are the same.\<close>

lemma add_expense_ignores_payers:
  "add_expense ub (e\<lparr>exp_paidByMultiple := ps\<rparr>) = add_expense ub e"
  by (simp add: add_expense_def)

lemma userBalances_ignores_payers:
  "userBalances (map (\<lambda>e. e\<lparr>exp_paidByMultiple := f e\<rparr>) es) = userBalances es"
proof -
  have "foldl add_expense ub (map (\<lambda>e. e\<lparr>exp_paidByMultiple := f e\<rparr>) es) = foldl add_expense ub es"
    for ub
    by (induction es arbitrary: ub) (simp_all add: add_expense_ignores_payers)
  then show ?thesis by (simp add: userBalances_def)
qed

text \<open>The balance object never holds a key twice.\<close>

lemma distinct_subtract_splits:
  "distinct (map fst ub) \<Longrightarrow> distinct (map fst (foldl subtract_split ub ss))"
  by (induction ss arbitrary: ub) (simp_all add: subtract_split_def distinct_update)

lemma distinct_add_expense:
  "distinct (map fst ub) \<Longrightarrow> distinct (map fst (add_expense ub e))"
  by (simp add: add_expense_def Let_def distinct_subtract_splits distinct_update)

lemma distinct_userBalances: "distinct (map fst (userBalances es))"
proof -
  have "distinct (map fst ub) \<Longrightarrow> distinct (map fst (foldl add_expense ub es))" for ub
    by (induction es arbitrary: ub) (simp_all add: distinct_add_expense)
  then show ?thesis by (simp add: userBalances_def)
qed

text \<open>Every assignment to the balance object moves the sum of its values by what it adds
  to one entry.\<close>

lemma balance_total_update:
  "balance_total (AList.update k (or_zero ub k + x) ub) = balance_total ub + x"
  by (induction ub) (auto simp: balance_total_def or_zero_def)

lemma balance_total_subtract_split:
  "balance_total (subtract_split ub s) = balance_total ub - split_amount s"
  using balance_total_update [where ub = ub and k = "split_user s" and x = "- split_amount s"]
  by (simp add: subtract_split_def)

lemma balance_total_splits:
  "balance_total (foldl subtract_split ub ss) = balance_total ub - sum_list (map split_amount ss)"
  by (induction ss arbitrary: ub) (simp_all add: balance_total_subtract_split)

lemma balance_total_add_expense:
  "balance_total (add_expense ub e) = balance_total ub + split_error e"
  by (simp add: add_expense_def Let_def balance_total_splits balance_total_update
      split_error_def splits_total_def)

lemma balance_total_fold:
  "balance_total (foldl add_expense ub es) = balance_total ub + sum_list (map split_error es)"
  by (induction es arbitrary: ub) (simp_all add: balance_total_add_expense)

lemma balance_total_userBalances:
  "balance_total (userBalances es) = sum_list (map split_error es)"
  by (simp add: userBalances_def balance_total_fold) (simp add: balance_total_def)

lemma abs_sum_list_bound:
  "\<forall>x\<in>set xs. \<bar>f x\<bar> \<le> (c::real) \<Longrightarrow> \<bar>sum_list (map f xs)\<bar> \<le> real (length xs) * c"
proof (induction xs)
  case Nil
  then show ?case by simp
next
  case (Cons x xs)
  then have "\<bar>f x\<bar> \<le> c" and "\<bar>sum_list (map f xs)\<bar> \<le> real (length xs) * c" by simp_all
  then show ?case by (simp add: algebra_simps)
qed

text \<open>
  Claim C6 (zero-sum of balances), as amended. The balances sum to the sum, over the
  expenses, of the expense amount less its owed amounts. When every expense's splits are
  within 0.01 of its amount, the balances therefore sum to 0 within 0.01 times the number
  of expenses; the tolerance is per expense and adds up.
\<close>

theorem balances_sum_to_split_errors:
  assumes "\<forall>e\<in>set es. \<bar>split_error e\<bar> \<le> 1 / 100"
  shows "balance_total (userBalances es) = sum_list (map split_error es) \<and>
         \<bar>balance_total (userBalances es)\<bar> \<le> real (length es) / 100"
  using abs_sum_list_bound [OF assms] by (simp add: balance_total_userBalances)

text \<open>The bound at two taxi rides, each short by \<open>1/128\<close>.\<close>

theorem balances_sum_to_split_errors_witness:
  "\<bar>split_error rounded_bill\<bar> \<le> 1 / 100 \<and>
   balance_total (userBalances [rounded_bill, rounded_bill]) = 1 / 64 \<and>
   \<bar>balance_total (userBalances [rounded_bill, rounded_bill])\<bar> \<le> 2 / 100"
proof -
  have h: "\<forall>e\<in>set [rounded_bill, rounded_bill]. \<bar>split_error e\<bar> \<le> 1 / 100"
    by (simp add: split_error_def splits_total_def rounded_bill_def)
  from balances_sum_to_split_errors [OF h] h show ?thesis
    by (simp add: split_error_def splits_total_def rounded_bill_def)
qed

text \<open>Claim C6 as stated fails: both rides are valid within 0.01, and the balances sum to
  \<open>1/64\<close>, more than 0.01.\<close>

theorem zero_sum_counterexample:
  "\<bar>split_error rounded_bill\<bar> \<le> 1 / 100 \<and>
   userBalances [rounded_bill, rounded_bill] = [(''A'', 100), (''B'', - 100 + 1 / 64)] \<and>
   balance_total (userBalances [rounded_bill, rounded_bill]) = 1 / 64 \<and>
   \<not> \<bar>balance_total (userBalances [rounded_bill, rounded_bill])\<bar> \<le> 1 / 100"
  by (simp add: split_error_def splits_total_def balance_total_def balance_defs rounded_bill_def)

section \<open>Settlement generation\<close>

lemmas matcher_defs = generateSettlements_def pair_settlement_def

text \<open>Every emitted settlement runs from a participant with a positive balance to one
  with a negative balance, for the smaller of the two magnitudes.\<close>

lemma pair_settlement_direction:
  "t \<in> set (pair_settlement ub g u v) \<Longrightarrow>
     \<exists>b1 b2. map_of ub (fromUser t) = Some b1 \<and> 0 < b1 \<and>
             map_of ub (toUser t) = Some b2 \<and> b2 < 0 \<and> amount t = min b1 \<bar>b2\<bar>"
proof (cases "map_of ub u")
  case None
  then show "t \<in> set (pair_settlement ub g u v) \<Longrightarrow> ?thesis"
    by (simp add: pair_settlement_def)
next
  case u: (Some bu)
  show "t \<in> set (pair_settlement ub g u v) \<Longrightarrow> ?thesis"
  proof (cases "map_of ub v")
    case None
    with u show "t \<in> set (pair_settlement ub g u v) \<Longrightarrow> ?thesis"
      by (simp add: pair_settlement_def)
  next
    case v: (Some bv)
    show "t \<in> set (pair_settlement ub g u v) \<Longrightarrow> ?thesis"
      using u v by (auto simp: pair_settlement_def min.commute split: if_splits)
  qed
qed

lemma inner_loop_direction:
  "t \<in> set (inner_loop ub g u vs) \<Longrightarrow>
     \<exists>b1 b2. map_of ub (fromUser t) = Some b1 \<and> 0 < b1 \<and>
             map_of ub (toUser t) = Some b2 \<and> b2 < 0 \<and> amount t = min b1 \<bar>b2\<bar>"
  by (induction vs) (auto dest: pair_settlement_direction)

lemma outer_loop_direction:
  "t \<in> set (outer_loop ub g us) \<Longrightarrow>
     \<exists>b1 b2. map_of ub (fromUser t) = Some b1 \<and> 0 < b1 \<and>
             map_of ub (toUser t) = Some b2 \<and> b2 < 0 \<and> amount t = min b1 \<bar>b2\<bar>"
  by (induction us) (auto dest: inner_loop_direction)

lemma generateSettlements_direction:
  "t \<in> set (generateSettlements g ub) \<Longrightarrow>
     \<exists>b1 b2. map_of ub (fromUser t) = Some b1 \<and> 0 < b1 \<and>
             map_of ub (toUser t) = Some b2 \<and> b2 < 0 \<and> amount t = min b1 \<bar>b2\<bar>"
  unfolding generateSettlements_def by (rule outer_loop_direction)

text \<open>
  Claim C2 (settlement direction: every settlement runs from a debtor to a creditor; for
  the group \<open>{A, B, C}\<close> with one equal-split expense of 300 paid by \<open>A\<close> the settlements
  are \<open>B\<close> pays \<open>A\<close> 100 and \<open>C\<close> pays \<open>A\<close> 100). On that expense the balances are
  \<open>A = +200\<close>, \<open>B = -100\<close>, \<open>C = -100\<close>, and the settlements generated name the creditor
  \<open>A\<close> as \<^verbatim>\<open>fromUser\<close> and the debtors as \<^verbatim>\<open>toUser\<close>.
\<close>

theorem scenario_settlements:
  "userBalances [dinner_expense] = [(''A'', 200), (''B'', - 100), (''C'', - 100)] \<and>
   calculateGroupSettlements [dinner_expense] ''g'' =
     [\<lparr>fromUser = ''A'', toUser = ''B'', group = ''g'', amount = 100, currency = ''LKR''\<rparr>,
      \<lparr>fromUser = ''A'', toUser = ''C'', group = ''g'', amount = 100, currency = ''LKR''\<rparr>]"
  by (simp add: calculateGroupSettlements_def balance_defs matcher_defs dinner_expense_def)

lemma pair_settlement_zero:
  "\<forall>x\<in>set ub. snd x = 0 \<Longrightarrow> pair_settlement ub g u v = []"
  by (auto simp: pair_settlement_def split: option.splits dest!: map_of_SomeD)

lemma inner_loop_zero:
  "\<forall>x\<in>set ub. snd x = 0 \<Longrightarrow> inner_loop ub g u vs = []"
  by (induction vs) (simp_all add: pair_settlement_zero)

lemma outer_loop_zero:
  "\<forall>x\<in>set ub. snd x = 0 \<Longrightarrow> outer_loop ub g us = []"
  by (induction us) (simp_all add: inner_loop_zero)

text \<open>
  Claim C8 (empty case), as amended. When every balance is exactly zero, no settlement is
  generated. The comparisons with zero are strict and carry no tolerance.
\<close>

theorem settled_balances_give_no_settlements:
  "\<forall>x\<in>set ub. snd x = 0 \<Longrightarrow> generateSettlements g ub = []"
  by (simp add: generateSettlements_def outer_loop_zero)

theorem settled_balances_witness:
  "snd (''A'', 0::real) = 0 \<and> snd (''B'', 0::real) = 0 \<and>
   generateSettlements ''g'' [(''A'', 0), (''B'', 0)] = []"
  using settled_balances_give_no_settlements [of "[(''A'', 0), (''B'', 0)]" "''g''"] by simp

text \<open>Claim C8 as stated fails: two balances of magnitude \<open>1/128\<close>, both zero within 0.01,
  give a settlement.\<close>

theorem epsilon_balances_counterexample:
  "\<bar>1 / 128 :: real\<bar> \<le> 1 / 100 \<and> \<bar>- (1 / 128) :: real\<bar> \<le> 1 / 100 \<and>
   generateSettlements ''g'' [(''A'', 1 / 128), (''B'', - (1 / 128))] =
     [\<lparr>fromUser = ''A'', toUser = ''B'', group = ''g'', amount = 1 / 128, currency = ''LKR''\<rparr>]"
  by (simp add: matcher_defs)

text \<open>The money moved by the settlements a participant is a party of, loop by loop.\<close>

lemma turnover_Nil: "turnover [] p = 0"
  by (simp add: turnover_def received_def paid_out_def)

lemma turnover_append: "turnover (xs @ ys) p = turnover xs p + turnover ys p"
  by (simp add: turnover_def received_def paid_out_def)

lemma pair_amount_sym: "pair_amount a b = pair_amount b a"
  by (auto simp: pair_amount_def min_def)

lemma pair_amount_self: "pair_amount a a = 0"
  by (simp add: pair_amount_def)

lemma or_zero_Some: "map_of ub k = Some b \<Longrightarrow> or_zero ub k = b"
  by (simp add: or_zero_def)

lemma or_zero_entry:
  "distinct (map fst ub) \<Longrightarrow> x \<in> set ub \<Longrightarrow> or_zero ub (fst x) = snd x"
  by (cases x) (simp add: or_zero_def)

lemma turnover_pair:
  assumes "map_of ub u = Some b1" and "map_of ub v = Some b2" and "u \<noteq> v"
  shows "turnover (pair_settlement ub g u v) p = (if p = u \<or> p = v then pair_amount b1 b2 else 0)"
  using assms
  by (auto simp: pair_settlement_def turnover_def received_def paid_out_def pair_amount_def)

lemma turnover_inner:
  assumes u: "map_of ub u = Some b1" and fresh: "u \<notin> set vs" and keys: "set vs \<subseteq> fst ` set ub"
  shows "turnover (inner_loop ub g u vs) p =
           sum_list (map (\<lambda>v. if p = u \<or> p = v then pair_amount b1 (or_zero ub v) else 0) vs)"
  using fresh keys
proof (induction vs)
  case Nil
  then show ?case by (simp add: turnover_Nil)
next
  case (Cons v vs)
  from Cons.prems obtain b2 where v: "map_of ub v = Some b2"
    by (force simp: weak_map_of_SomeI split: prod.splits)
  from Cons.prems have "u \<noteq> v" by auto
  from turnover_pair [OF u v this] Cons show ?case
    by (simp add: turnover_append or_zero_Some [OF v])
qed

lemma sum_list_none:
  "p \<notin> set vs \<Longrightarrow> sum_list (map (\<lambda>v. if p = v then f v else 0) vs) = (0 :: real)"
  by (induction vs) auto

lemma sum_list_single:
  "distinct vs \<Longrightarrow> p \<in> set vs \<Longrightarrow>
     sum_list (map (\<lambda>v. if p = v then f v else 0) vs) = (f p :: real)"
proof (induction vs)
  case Nil
  then show ?case by simp
next
  case (Cons v vs)
  show ?case
  proof (cases "p = v")
    case True
    with Cons.prems have "p \<notin> set vs" by simp
    from sum_list_none [OF this] True show ?thesis by simp
  next
    case False
    with Cons show ?thesis by simp
  qed
qed

lemma turnover_outer:
  assumes "distinct us" and "set us \<subseteq> fst ` set ub"
  shows "turnover (outer_loop ub g us) p =
           (if p \<in> set us
            then sum_list (map (\<lambda>q. pair_amount (or_zero ub p) (or_zero ub q)) us) else 0)"
  using assms
proof (induction us)
  case Nil
  then show ?case by (simp add: turnover_Nil)
next
  case (Cons u us)
  from Cons.prems obtain b1 where u: "map_of ub u = Some b1"
    by (force simp: weak_map_of_SomeI split: prod.splits)
  from Cons.prems have fresh: "u \<notin> set us" and keys: "set us \<subseteq> fst ` set ub"
    and dist: "distinct us" by simp_all
  have inner: "turnover (inner_loop ub g u us) p =
      sum_list (map (\<lambda>v. if p = u \<or> p = v then pair_amount b1 (or_zero ub v) else 0) us)"
    by (rule turnover_inner [OF u fresh keys])
  have outer: "turnover (outer_loop ub g us) p =
      (if p \<in> set us
       then sum_list (map (\<lambda>q. pair_amount (or_zero ub p) (or_zero ub q)) us) else 0)"
    using Cons.IH [OF dist keys] .
  show ?case
  proof (cases "p = u")
    case True
    with fresh inner outer show ?thesis
      by (simp add: turnover_append or_zero_Some [OF u] pair_amount_self)
  next
    case False
    then have inner': "turnover (inner_loop ub g u us) p =
        sum_list (map (\<lambda>v. if p = v then pair_amount b1 (or_zero ub v) else 0) us)"
      using inner by simp
    show ?thesis
    proof (cases "p \<in> set us")
      case True
      from sum_list_single [OF dist True, of "\<lambda>v. pair_amount b1 (or_zero ub v)"] inner'
      have "turnover (inner_loop ub g u us) p = pair_amount b1 (or_zero ub p)" by simp
      with outer True False show ?thesis
        by (simp add: turnover_append or_zero_Some [OF u] pair_amount_sym [of b1])
    next
      case notin: False
      from sum_list_none [OF notin, of "\<lambda>v. pair_amount b1 (or_zero ub v)"] inner'
      have "turnover (inner_loop ub g u us) p = 0" by simp
      with outer notin False show ?thesis by (simp add: turnover_append)
    qed
  qed
qed

lemma turnover_over_keys:
  assumes dist: "distinct (map fst ub)" and p: "map_of ub p = Some bp"
  shows "turnover (generateSettlements g ub) p =
           sum_list (map (\<lambda>q. pair_amount bp (or_zero ub q)) (map fst ub))"
proof -
  from p have "p \<in> set (map fst ub)"
    by (force dest: map_of_SomeD)
  with turnover_outer [OF dist, of ub g p] show ?thesis
    by (simp add: generateSettlements_def or_zero_Some [OF p])
qed

lemma sum_over_keys:
  "distinct (map fst ub) \<Longrightarrow>
     sum_list (map (\<lambda>q. f (or_zero ub q)) (map fst ub)) = sum_list (map f (map snd ub) :: real list)"
  by (simp add: comp_def or_zero_entry cong: map_cong)

text \<open>
  Claim C1 (settlement conservation), as amended. For every balance mapping and every
  participant \<open>p\<close> with balance \<open>bp\<close>, the amounts of the settlements that \<open>p\<close> is a party
  of (as \<^verbatim>\<open>toUser\<close> or as \<^verbatim>\<open>fromUser\<close>) sum to the sum, over the participants whose
  balance has the strictly opposite sign, of the smaller of the two magnitudes. One
  settlement is generated for every such pair and no balance is reduced by what an earlier
  pair settled, so the sum can exceed the magnitude of \<open>bp\<close>. The keys of a balance
  mapping are distinct (\<open>distinct_userBalances\<close>).
\<close>

theorem settlement_turnover:
  assumes dist: "distinct (map fst ub)" and p: "map_of ub p = Some bp"
  shows "turnover (generateSettlements g ub) p = sum_list (map (pair_amount bp) (map snd ub))"
proof -
  have "turnover (generateSettlements g ub) p =
          sum_list (map (\<lambda>q. pair_amount bp (or_zero ub q)) (map fst ub))"
    using dist p by (rule turnover_over_keys)
  also have "\<dots> = sum_list (map (pair_amount bp) (map snd ub))"
    using dist by (rule sum_over_keys)
  finally show ?thesis .
qed

text \<open>With two creditors and two debtors, \<open>A\<close> (balance 150) is a party of settlements
  worth \<open>100 + 100\<close>.\<close>

theorem settlement_turnover_witness:
  "distinct (map fst uneven) \<and> map_of uneven ''A'' = Some 150 \<and>
   turnover (generateSettlements ''g'' uneven) ''A'' = 200"
proof -
  have d: "distinct (map fst uneven)" by (simp add: uneven_def)
  have p: "map_of uneven ''A'' = Some 150" by (simp add: uneven_def)
  from settlement_turnover [OF d p, of "''g''"] d p show ?thesis
    by (simp add: uneven_def pair_amount_def)
qed

text \<open>Claim C1 as stated fails there: \<open>A\<close> receives nothing and pays 200, so received less
  paid is \<open>-200\<close>, not the balance 150.\<close>

theorem conservation_counterexample:
  "generateSettlements ''g'' uneven =
     [\<lparr>fromUser = ''A'', toUser = ''C'', group = ''g'', amount = 100, currency = ''LKR''\<rparr>,
      \<lparr>fromUser = ''A'', toUser = ''D'', group = ''g'', amount = 100, currency = ''LKR''\<rparr>,
      \<lparr>fromUser = ''B'', toUser = ''C'', group = ''g'', amount = 50, currency = ''LKR''\<rparr>,
      \<lparr>fromUser = ''B'', toUser = ''D'', group = ''g'', amount = 50, currency = ''LKR''\<rparr>] \<and>
   map_of uneven ''A'' = Some 150 \<and>
   received (generateSettlements ''g'' uneven) ''A'' = 0 \<and>
   paid_out (generateSettlements ''g'' uneven) ''A'' = 200 \<and>
   \<not> \<bar>received (generateSettlements ''g'' uneven) ''A''
        - paid_out (generateSettlements ''g'' uneven) ''A'' - 150\<bar> \<le> 1 / 100"
  by (simp add: matcher_defs uneven_def received_def paid_out_def)

text \<open>
  Where the magnitudes are conserved: when the balances sum to zero and all but one
  participant are on the same side (at most one creditor, or at most one debtor), every
  participant is a party of settlements worth exactly the magnitude of their balance.
\<close>

lemma pair_amount_nonpos: "a \<le> 0 \<Longrightarrow> b \<le> 0 \<Longrightarrow> pair_amount a b = 0"
  by (simp add: pair_amount_def)

lemma pair_amount_negated: "pair_amount (- a) (- b) = pair_amount a b"
  by (auto simp: pair_amount_def)

lemma sum_list_negated: "sum_list (map (\<lambda>x. - f x) xs) = - sum_list (map f xs :: real list)"
  by (induction xs) simp_all

lemma sum_list_nonpos_real: "\<forall>b\<in>set bs. b \<le> (0::real) \<Longrightarrow> sum_list bs \<le> 0"
  by (induction bs) auto

lemma sum_list_all_zero: "\<forall>x\<in>set xs. f x = (0::real) \<Longrightarrow> sum_list (map f xs) = 0"
  by (induction xs) simp_all

lemma sum_list_nonpos_bound:
  assumes "\<forall>b\<in>set bs. b \<le> (0::real)" and "x \<in> set bs"
  shows "sum_list bs \<le> x"
  using assms
proof (induction bs)
  case Nil
  then show ?case by simp
next
  case (Cons b bs)
  then have b: "b \<le> 0" and rest: "\<forall>b\<in>set bs. b \<le> 0" by simp_all
  from rest have s: "sum_list bs \<le> 0" by (rule sum_list_nonpos_real)
  show ?case
  proof (cases "x = b")
    case True
    with s show ?thesis by simp
  next
    case False
    with Cons have "sum_list bs \<le> x" by simp
    with b show ?thesis by simp
  qed
qed

lemma pair_amounts_one_creditor:
  fixes ub :: balances
  assumes dist: "distinct (map fst ub)" and zero: "sum_list (map snd ub) = 0"
    and cmem: "(c, bc) \<in> set ub"
    and others: "\<forall>x\<in>set ub. fst x \<noteq> c \<longrightarrow> snd x \<le> 0"
    and pm: "(p, bp) \<in> set ub"
  shows "sum_list (map (\<lambda>x. pair_amount bp (snd x)) ub) = \<bar>bp\<bar>"
proof -
  let ?rest = "remove1 (c, bc) ub"
  have rest_keys: "\<forall>x\<in>set ?rest. fst x \<noteq> c"
  proof
    fix x assume x: "x \<in> set ?rest"
    from dist have d: "distinct ub" by (rule distinct_map [THEN iffD1, THEN conjunct1])
    from x d have "x \<in> set ub" "x \<noteq> (c, bc)" by auto
    with dist cmem show "fst x \<noteq> c"
      by (metis eq_key_imp_eq_value prod.collapse)
  qed
  have rest_sub: "set ?rest \<subseteq> set ub" by (rule set_remove1_subset)
  have rest_np: "\<forall>x\<in>set ?rest. snd x \<le> 0"
    using rest_keys rest_sub others by auto
  have split_sum: "sum_list (map f ub) = f (c, bc) + sum_list (map f ?rest)"
    for f :: "user_id \<times> real \<Rightarrow> real"
    using cmem by (rule sum_list_map_remove1)
  have total: "bc + sum_list (map snd ?rest) = 0"
    using zero split_sum [of snd] by simp
  have bound: "- bc \<le> snd x" if "x \<in> set ?rest" for x
  proof -
    have "sum_list (map snd ?rest) \<le> snd x"
      using rest_np that by (intro sum_list_nonpos_bound) auto
    with total show ?thesis by simp
  qed
  have turn: "sum_list (map (\<lambda>x. pair_amount bp (snd x)) ub)
                = pair_amount bp bc + sum_list (map (\<lambda>x. pair_amount bp (snd x)) ?rest)"
    using split_sum [of "\<lambda>x. pair_amount bp (snd x)"] by simp
  show ?thesis
  proof (cases "p = c")
    case True
    with dist cmem pm have bp: "bp = bc" by (metis eq_key_imp_eq_value)
    have "pair_amount bc (snd x) = - snd x" if "x \<in> set ?rest" for x
      using rest_np bound [OF that] that by (auto simp: pair_amount_def min_def)
    then have "sum_list (map (\<lambda>x. pair_amount bc (snd x)) ?rest)
                 = sum_list (map (\<lambda>x. - snd x) ?rest)"
      by (simp cong: map_cong)
    also have "\<dots> = - sum_list (map snd ?rest)"
      by (rule sum_list_negated)
    also have "\<dots> = bc" using total by simp
    finally have s: "sum_list (map (\<lambda>x. pair_amount bc (snd x)) ?rest) = bc" .
    have "0 \<le> bc"
    proof -
      have "sum_list (map snd ?rest) \<le> 0" using rest_np by (intro sum_list_nonpos_real) auto
      with total show ?thesis by simp
    qed
    with turn bp s show ?thesis by (simp add: pair_amount_self)
  next
    case False
    with pm have pr: "(p, bp) \<in> set ?rest" by simp
    from others pm False have np: "bp \<le> 0" by auto
    have "sum_list (map (\<lambda>x. pair_amount bp (snd x)) ?rest) = 0"
    proof -
      have "pair_amount bp (snd x) = 0" if "x \<in> set ?rest" for x
        using rest_np that np by (simp add: pair_amount_nonpos)
      then show ?thesis by (intro sum_list_all_zero) simp
    qed
    moreover have "pair_amount bp bc = \<bar>bp\<bar>"
      using bound [OF pr] np by (auto simp: pair_amount_def min_def)
    ultimately show ?thesis using turn by simp
  qed
qed

lemma pair_amounts_one_debtor:
  fixes ub :: balances
  assumes dist: "distinct (map fst ub)" and zero: "sum_list (map snd ub) = 0"
    and cmem: "(c, bc) \<in> set ub"
    and others: "\<forall>x\<in>set ub. fst x \<noteq> c \<longrightarrow> 0 \<le> snd x"
    and pm: "(p, bp) \<in> set ub"
  shows "sum_list (map (\<lambda>x. pair_amount bp (snd x)) ub) = \<bar>bp\<bar>"
proof -
  let ?neg = "map (\<lambda>x. (fst x, - snd x)) ub"
  have d: "distinct (map fst ?neg)" using dist by (simp add: comp_def)
  have z: "sum_list (map snd ?neg) = 0"
    using zero sum_list_negated [of snd ub] by (simp add: comp_def)
  have c': "(c, - bc) \<in> set ?neg" using cmem by force
  have p': "(p, - bp) \<in> set ?neg" using pm by force
  have o: "\<forall>x\<in>set ?neg. fst x \<noteq> c \<longrightarrow> snd x \<le> 0" using others by auto
  from pair_amounts_one_creditor [OF d z c' o p']
  show ?thesis by (simp add: comp_def pair_amount_negated)
qed

lemma one_sided_conservation:
  assumes dist: "distinct (map fst ub)" and zero: "balance_total ub = 0"
    and c: "map_of ub c = Some bc"
    and side: "(\<forall>x\<in>set ub. fst x \<noteq> c \<longrightarrow> snd x \<le> 0) \<or>
               (\<forall>x\<in>set ub. fst x \<noteq> c \<longrightarrow> 0 \<le> snd x)"
    and p: "map_of ub p = Some bp"
  shows "turnover (generateSettlements g ub) p = \<bar>bp\<bar>"
proof -
  from c p have mem: "(c, bc) \<in> set ub" "(p, bp) \<in> set ub"
    by (auto dest: map_of_SomeD)
  from zero have z: "sum_list (map snd ub) = 0" by (simp add: balance_total_def)
  have "turnover (generateSettlements g ub) p = sum_list (map (pair_amount bp) (map snd ub))"
    using turnover_over_keys [OF dist p, of g] sum_over_keys [OF dist, of "pair_amount bp"]
    by simp
  also have "\<dots> = sum_list (map (\<lambda>x. pair_amount bp (snd x)) ub)"
    by (simp add: comp_def)
  also have "\<dots> = \<bar>bp\<bar>"
    using side pair_amounts_one_creditor [OF dist z mem(1) _ mem(2)]
      pair_amounts_one_debtor [OF dist z mem(1) _ mem(2)]
    by blast
  finally show ?thesis .
qed

section \<open>Split calculation and expense creation\<close>

lemmas create_defs = createExpense_def create_with_def calculate_splits_def totalPercentage_def totalAmount_def
  include_payers_def push_if_absent_def isMember_def save_expense_def validate_expense_def
  valid_split_def persisted_expense_def trim_def space1_def space2_def space3_def

lemma foldl_plus_sum_list:
  "foldl (\<lambda>sum x. sum + f x) (a::real) xs = a + sum_list (map f xs)"
  by (induction xs arbitrary: a) simp_all

lemma totalPercentage_sum: "totalPercentage cs = sum_list (map cs_percentage cs)"
  by (simp add: totalPercentage_def foldl_plus_sum_list)

lemma totalAmount_sum: "totalAmount cs = sum_list (map cs_amount cs)"
  by (simp add: totalAmount_def foldl_plus_sum_list)

lemma sum_list_const: "sum_list (map (\<lambda>_. c) xs) = real (length xs) * (c::real)"
  by (induction xs) (simp_all add: algebra_simps)

lemma sum_list_scaled:
  "sum_list (map (\<lambda>x. (a * f x) / 100) xs) = a * sum_list (map f xs) / (100::real)"
  by (induction xs) (simp_all add: algebra_simps add_divide_distrib)

text \<open>The participant list that reaches the split calculation holds at least the payer.\<close>

lemma include_payers_nonempty: "include_payers ps pm u \<noteq> []"
proof -
  have one: "push_if_absent qs v \<noteq> []" for qs v
    by (auto simp: push_if_absent_def)
  have grow: "qs \<noteq> [] \<Longrightarrow> foldl push_if_absent qs us \<noteq> []" for qs us
    by (induction us arbitrary: qs) (auto simp: push_if_absent_def)
  show ?thesis
  proof (cases pm)
    case Nil
    then show ?thesis by (simp add: include_payers_def one)
  next
    case (Cons p rest)
    then show ?thesis by (simp add: include_payers_def grow [OF one])
  qed
qed

text \<open>The three branches of the split calculation, each against the expense amount.\<close>

lemma calculate_splits_total:
  assumes ok: "calculate_splits a ty ps cs = Inr ss"
    and pos: "0 < a" and ne: "ps \<noteq> []"
    and ty: "ty \<in> set [''equal'', ''percentage'', ''custom'']"
  shows "\<bar>sum_list (map split_amount ss) - a\<bar>
           \<le> (if ty = ''percentage'' then a / 10000 else 1 / 100)"
proof -
  consider (eq) "ty = ''equal''" | (pc) "ty = ''percentage''" | (cu) "ty = ''custom''"
    using ty by auto
  then show ?thesis
  proof cases
    case eq
    with ok have "ss = map (\<lambda>userId. \<lparr>split_user = id_of userId, split_amount = a / real (length ps),
                        split_percentage = None, split_isPaid = False, split_paid = None\<rparr>) ps"
      by (simp add: calculate_splits_def Let_def)
    then have "sum_list (map split_amount ss) = real (length ps) * (a / real (length ps))"
      by (simp add: comp_def sum_list_const)
    also have "\<dots> = a" using ne by simp
    finally show ?thesis using eq by simp
  next
    case pc
    with ok have close: "\<bar>totalPercentage cs - 100\<bar> \<le> 1 / 100"
      and ss: "ss = map (\<lambda>split. \<lparr>split_user = cs_userId split,
                         split_amount = (a * cs_percentage split) / 100,
                         split_percentage = Some (Finite (cs_percentage split)),
                         split_isPaid = False, split_paid = None\<rparr>) cs"
      by (auto simp: calculate_splits_def split: if_splits)
    from ss have "sum_list (map split_amount ss) = a * totalPercentage cs / 100"
      by (simp add: comp_def sum_list_scaled totalPercentage_sum)
    then have "sum_list (map split_amount ss) - a = a * (totalPercentage cs - 100) / 100"
      by (simp add: algebra_simps diff_divide_distrib)
    then have "\<bar>sum_list (map split_amount ss) - a\<bar> = \<bar>a * (totalPercentage cs - 100) / 100\<bar>"
      by (simp only:)
    also have "\<dots> = a * \<bar>totalPercentage cs - 100\<bar> / 100"
      using pos by (simp add: abs_mult)
    also have "\<dots> \<le> a * (1 / 100) / 100"
      using close pos by (intro divide_right_mono mult_left_mono) simp_all
    finally show ?thesis using pc by simp
  next
    case cu
    with ok have close: "\<bar>totalAmount cs - a\<bar> \<le> 1 / 100"
      and ss: "ss = map (\<lambda>split. \<lparr>split_user = cs_userId split,
                         split_amount = cs_amount split,
                         split_percentage =
                           Some (if a = 0 then NonFinite else Finite ((cs_amount split / a) * 100)),
                         split_isPaid = False, split_paid = None\<rparr>) cs"
      by (auto simp: calculate_splits_def split: if_splits)
    from ss have "sum_list (map split_amount ss) = totalAmount cs"
      by (simp add: comp_def totalAmount_sum)
    with close cu show ?thesis by simp
  qed
qed

lemma save_expense_Some:
  "save_expense d eid now e = Some (e', d') \<Longrightarrow>
     e' = persisted_expense now e \<and> map_of (db_expenses d') eid = Some e'"
  by (auto simp: save_expense_def update_conv' Let_def split: if_splits)

lemma save_expense_valid: "save_expense d eid now e = Some (e', d') \<Longrightarrow> validate_expense e"
  by (simp add: save_expense_def split: if_splits)

lemma persisted_amounts:
  "map split_amount (exp_splits (persisted_expense now e)) = map split_amount (exp_splits e) \<and>
   exp_amount (persisted_expense now e) = exp_amount e \<and>
   exp_splitType (persisted_expense now e) = exp_splitType e"
  by (simp add: persisted_expense_def comp_def)

lemma persisted_isPaid:
  "map split_isPaid (exp_splits (persisted_expense now e)) = map split_isPaid (exp_splits e)"
  by (simp add: persisted_expense_def comp_def)

text \<open>What a 201 response of \<^verbatim>\<open>createExpense\<close> says about the request.\<close>

lemma create_with_Inr:
  assumes "create_with d requester newId now body ps0 = (Inr e, d')"
  shows "\<exists>ps splits. ps \<noteq> [] \<and>
           calculate_splits (body_amount body) (body_splitType body) ps (body_customSplits body)
             = Inr splits \<and>
           body_splitType body \<in> set [''equal'', ''percentage'', ''custom''] \<and>
           exp_amount e = body_amount body \<and> exp_splitType e = body_splitType body \<and>
           map split_amount (exp_splits e) = map split_amount splits"
proof -
  let ?ps = "include_payers ps0 (body_paidByMultiple body) requester"
  from assms obtain splits x where
    cs: "calculate_splits (body_amount body) (body_splitType body) ?ps (body_customSplits body)
           = Inr splits"
    and sv: "save_expense d newId now x = Some (e, d')"
    and x: "exp_amount x = body_amount body" "exp_splitType x = body_splitType body"
           "exp_splits x = splits"
    by (auto simp: create_with_def Let_def split: sum.splits option.splits)
  from save_expense_Some [OF sv] have e: "e = persisted_expense now x" by simp
  from save_expense_valid [OF sv] x
  have ty: "body_splitType body \<in> set [''equal'', ''percentage'', ''custom'']"
    by (simp add: validate_expense_def)
  show ?thesis
    using cs ty x e include_payers_nonempty [of ps0 "body_paidByMultiple body" requester]
    by (intro exI [of _ ?ps] exI [of _ splits]) (simp add: persisted_amounts)
qed

lemma createExpense_Inr:
  assumes "createExpense d requester newId now body = (Inr e, d')"
  shows "\<exists>ps splits. ps \<noteq> [] \<and>
           calculate_splits (body_amount body) (body_splitType body) ps (body_customSplits body)
             = Inr splits \<and>
           body_splitType body \<in> set [''equal'', ''percentage'', ''custom''] \<and>
           exp_amount e = body_amount body \<and> exp_splitType e = body_splitType body \<and>
           map split_amount (exp_splits e) = map split_amount splits"
proof -
  from assms obtain ps0 where "create_with d requester newId now body ps0 = (Inr e, d')"
    by (auto simp: createExpense_def split: option.splits if_splits)
  then show ?thesis by (rule create_with_Inr)
qed

lemma big_dinner_created:
  "createExpense ledger ''A'' ''e2'' 9 big_dinner =
    (Inr banquet, ledger\<lparr>db_expenses := [(''e1'', dinner_expense), (''e2'', banquet)]\<rparr>)"
  by (simp add: create_defs ledger_def trip_def big_dinner_def banquet_def Let_def)

text \<open>
  Claim C5 (split conservation), as amended. For every expense that \<^verbatim>\<open>createExpense\<close>
  accepts with a positive amount, the owed amounts of its splits sum to the expense
  amount within 0.01 for an equal and for a custom split, and within the amount times
  0.0001 for a percentage split: the percentage check tolerates 0.01 percentage points,
  which is 0.01 currency units only up to an amount of 100.
\<close>

theorem created_expense_split_total:
  assumes created: "createExpense d requester newId now body = (Inr e, d')"
    and pos: "0 < body_amount body"
  shows "\<bar>splits_total e - exp_amount e\<bar>
           \<le> (if exp_splitType e = ''percentage'' then exp_amount e / 10000 else 1 / 100)"
proof -
  from createExpense_Inr [OF created] obtain ps splits where
    ne: "ps \<noteq> []"
    and cs: "calculate_splits (body_amount body) (body_splitType body) ps (body_customSplits body)
             = Inr splits"
    and ty: "body_splitType body \<in> set [''equal'', ''percentage'', ''custom'']"
    and e: "exp_amount e = body_amount body" "exp_splitType e = body_splitType body"
           "map split_amount (exp_splits e) = map split_amount splits"
    by blast
  from calculate_splits_total [OF cs pos ne ty] show ?thesis
    by (simp only: splits_total_def e)
qed

text \<open>The banquet of 12800 is created, and its splits are within \<open>12800 / 10000\<close> of the
  amount.\<close>

theorem created_expense_split_total_witness:
  "0 < body_amount big_dinner \<and>
   createExpense ledger ''A'' ''e2'' 9 big_dinner =
    (Inr banquet, ledger\<lparr>db_expenses := [(''e1'', dinner_expense), (''e2'', banquet)]\<rparr>) \<and>
   \<bar>splits_total banquet - 12800\<bar> \<le> 12800 / 10000"
proof -
  have p: "0 < body_amount big_dinner" by (simp add: big_dinner_def)
  from created_expense_split_total [OF big_dinner_created p] p big_dinner_created
  show ?thesis by (simp add: banquet_def)
qed

text \<open>Claim C5 as stated fails: the percentages 50 and \<open>50 + 1/128\<close> pass the check, and the
  splits of the accepted expense of 12800 sum to 12801.\<close>

theorem percentage_split_counterexample:
  "0 < body_amount big_dinner \<and>
   createExpense ledger ''A'' ''e2'' 9 big_dinner =
    (Inr banquet, ledger\<lparr>db_expenses := [(''e1'', dinner_expense), (''e2'', banquet)]\<rparr>) \<and>
   exp_amount banquet = 12800 \<and> splits_total banquet = 12801 \<and>
   \<not> \<bar>splits_total banquet - exp_amount banquet\<bar> \<le> 1 / 100"
  by (simp add: big_dinner_created) (simp add: splits_total_def big_dinner_def banquet_def)

text \<open>The percentage branch of the split calculation answers with the percentage error
  exactly when the sum check fails, and no other branch gives that answer.\<close>

lemma calculate_splits_percent_error:
  "(calculate_splits a ty ps cs = Inl percent_error)
     = (ty = ''percentage'' \<and> \<bar>totalPercentage cs - 100\<bar> > 1 / 100)"
  by (auto simp: calculate_splits_def percent_error_def Let_def)

lemma create_with_percent_error:
  "(fst (create_with d requester newId now body ps0) = Inl percent_error)
     = (body_splitType body = ''percentage'' \<and>
        \<bar>totalPercentage (body_customSplits body) - 100\<bar> > 1 / 100)"
proof (cases "calculate_splits (body_amount body) (body_splitType body)
                (include_payers ps0 (body_paidByMultiple body) requester) (body_customSplits body)")
  case (Inl err)
  then have "fst (create_with d requester newId now body ps0) = Inl err"
    by (simp add: create_with_def Let_def)
  with Inl calculate_splits_percent_error [of "body_amount body" "body_splitType body"
      "include_payers ps0 (body_paidByMultiple body) requester" "body_customSplits body"]
  show ?thesis by auto
next
  case (Inr splits)
  then have "fst (create_with d requester newId now body ps0) \<noteq> Inl percent_error"
    by (simp add: create_with_def Let_def percent_error_def split: option.splits)
  with Inr calculate_splits_percent_error [of "body_amount body" "body_splitType body"
      "include_payers ps0 (body_paidByMultiple body) requester" "body_customSplits body"]
  show ?thesis by auto
qed

text \<open>Every answer other than success leaves the collections as they were.\<close>

lemma create_with_failure: "isl (fst (create_with d requester newId now body ps0)) \<Longrightarrow>
    snd (create_with d requester newId now body ps0) = d"
  by (auto simp: create_with_def Let_def split: sum.splits option.splits)

lemma createExpense_failure: "isl (fst (createExpense d requester newId now body)) \<Longrightarrow>
    snd (createExpense d requester newId now body) = d"
  by (auto simp: createExpense_def create_with_failure split: option.splits)

lemma createExpense_admitted:
  assumes "admitted d requester body"
  shows "\<exists>ps0. createExpense d requester newId now body = create_with d requester newId now body ps0"
  using assms by (auto simp: createExpense_def admitted_def split: option.splits)

text \<open>The percentage branch when the sum check passes, and what the validators of the
  schema say of its splits.\<close>

lemma calculate_splits_percentage_ok:
  assumes "\<bar>totalPercentage cs - 100\<bar> \<le> 1 / 100"
  shows "calculate_splits a ''percentage'' ps cs =
           Inr (map (\<lambda>split. \<lparr>split_user = cs_userId split,
                         split_amount = (a * cs_percentage split) / 100,
                         split_percentage = Some (Finite (cs_percentage split)),
                         split_isPaid = False, split_paid = None\<rparr>) cs)"
  using assms by (simp add: calculate_splits_def)

lemma percentage_splits_valid:
  assumes "percentages_in_range cs" and "0 \<le> a"
  shows "list_all valid_split
           (map (\<lambda>split. \<lparr>split_user = cs_userId split,
                         split_amount = (a * cs_percentage split) / 100,
                         split_percentage = Some (Finite (cs_percentage split)),
                         split_isPaid = False, split_paid = None\<rparr>) cs)"
  using assms by (induction cs) (simp_all add: percentages_in_range_def valid_split_def)

lemma percentage_splits_invalid:
  assumes "\<not> percentages_in_range cs"
  shows "\<not> list_all valid_split
           (map (\<lambda>split. \<lparr>split_user = cs_userId split,
                         split_amount = (a * cs_percentage split) / 100,
                         split_percentage = Some (Finite (cs_percentage split)),
                         split_isPaid = False, split_paid = None\<rparr>) cs)"
  using assms by (induction cs) (auto simp: percentages_in_range_def valid_split_def)

text \<open>A percentage request that passes the sum check is saved when the percentages and the
  other fields are valid, and is never saved when a percentage is out of range.\<close>

lemma create_with_percentage_success:
  assumes ty: "body_splitType body = ''percentage''"
    and range: "percentages_in_range (body_customSplits body)"
    and close: "\<bar>totalPercentage (body_customSplits body) - 100\<bar> \<le> 1 / 100"
    and valid: "fields_valid body"
  shows "\<exists>e. create_with d requester newId now body ps0 =
               (Inr e, d\<lparr>db_expenses := AList.update newId e (db_expenses d)\<rparr>) \<and>
             exp_amount e = body_amount body \<and>
             map split_user (exp_splits e) = map cs_userId (body_customSplits body) \<and>
             map split_amount (exp_splits e) =
               map (\<lambda>s. body_amount body * cs_percentage s / 100) (body_customSplits body)"
proof -
  from valid have amt: "0 \<le> body_amount body" by (simp add: fields_valid_def)
  note sv = percentage_splits_valid [OF range amt]
  show ?thesis
    using valid sv
    by (simp add: create_with_def Let_def ty calculate_splits_percentage_ok [OF close]
        save_expense_def validate_expense_def fields_valid_def persisted_expense_def comp_def)
qed

lemma create_with_percentage_out_of_range:
  assumes ty: "body_splitType body = ''percentage''"
    and range: "\<not> percentages_in_range (body_customSplits body)"
  shows "isl (fst (create_with d requester newId now body ps0))"
proof (cases "\<bar>totalPercentage (body_customSplits body) - 100\<bar> \<le> 1 / 100")
  case True
  note bad = percentage_splits_invalid [OF range, of "body_amount body"]
  show ?thesis
    using bad
    by (simp add: create_with_def Let_def ty calculate_splits_percentage_ok [OF True]
        save_expense_def validate_expense_def)
next
  case False
  then show ?thesis
    by (simp add: create_with_def Let_def ty calculate_splits_def)
qed

lemma createExpense_not_admitted:
  "\<not> admitted d requester body \<Longrightarrow> isl (fst (createExpense d requester newId now body))"
  by (auto simp: createExpense_def admitted_def split: option.splits)

text \<open>
  Claim C7 (percentage validation with atomic rejection), as amended. For a request with
  split type percentage: every answer other than success leaves the collections
  unchanged. When the request passes the group and participant checks and every
  percentage lies between 0 and 100: a sum 0.011 or more away from 100 is answered with the
  percentage error; a sum at most 0.009 away from 100 is answered with success, the other
  fields being valid, and the expense is stored with the owed amounts
  \<open>amount * percentage / 100\<close>. A request with a percentage outside 0 to 100 never
  succeeds, whatever the sum. Between 0.009 and 0.011 the answer rests on the rounding of
  the doubles and nothing is said.
\<close>

theorem percentage_validation:
  assumes ty: "body_splitType body = ''percentage''"
  shows "(isl (fst (createExpense d requester newId now body)) \<longrightarrow>
            snd (createExpense d requester newId now body) = d) \<and>
         (admitted d requester body \<and> percentages_in_range (body_customSplits body) \<and>
          11 / 1000 \<le> \<bar>sum_list (map cs_percentage (body_customSplits body)) - 100\<bar> \<longrightarrow>
            fst (createExpense d requester newId now body) = Inl percent_error) \<and>
         (admitted d requester body \<and> percentages_in_range (body_customSplits body) \<and>
          \<bar>sum_list (map cs_percentage (body_customSplits body)) - 100\<bar> \<le> 9 / 1000 \<and>
          fields_valid body \<longrightarrow>
            \<not> isl (fst (createExpense d requester newId now body)) \<and>
            map_of (db_expenses (snd (createExpense d requester newId now body))) newId
              = Some (projr (fst (createExpense d requester newId now body))) \<and>
            exp_amount (projr (fst (createExpense d requester newId now body))) = body_amount body \<and>
            map split_user (exp_splits (projr (fst (createExpense d requester newId now body))))
              = map cs_userId (body_customSplits body) \<and>
            map split_amount (exp_splits (projr (fst (createExpense d requester newId now body))))
              = map (\<lambda>s. body_amount body * cs_percentage s / 100) (body_customSplits body)) \<and>
         (\<not> percentages_in_range (body_customSplits body) \<longrightarrow>
            isl (fst (createExpense d requester newId now body)))"
proof -
  let ?r = "createExpense d requester newId now body"
  let ?cs = "body_customSplits body"
  have atomic: "snd ?r = d" if "isl (fst ?r)"
    using that by (rule createExpense_failure)
  have rejected: "fst ?r = Inl percent_error"
    if "admitted d requester body" and "11 / 1000 \<le> \<bar>sum_list (map cs_percentage ?cs) - 100\<bar>"
  proof -
    from createExpense_admitted [OF that(1), of newId now] obtain ps0 where
      "?r = create_with d requester newId now body ps0" ..
    moreover from that(2) have "\<bar>totalPercentage ?cs - 100\<bar> > 1 / 100"
      by (simp add: totalPercentage_sum)
    ultimately show ?thesis
      using ty by (simp add: create_with_percent_error)
  qed
  have created: "\<not> isl (fst ?r) \<and>
      map_of (db_expenses (snd ?r)) newId = Some (projr (fst ?r)) \<and>
      exp_amount (projr (fst ?r)) = body_amount body \<and>
      map split_user (exp_splits (projr (fst ?r))) = map cs_userId ?cs \<and>
      map split_amount (exp_splits (projr (fst ?r)))
        = map (\<lambda>s. body_amount body * cs_percentage s / 100) ?cs"
    if "admitted d requester body" and range: "percentages_in_range ?cs"
      and "\<bar>sum_list (map cs_percentage ?cs) - 100\<bar> \<le> 9 / 1000" and valid: "fields_valid body"
  proof -
    from createExpense_admitted [OF that(1), of newId now] obtain ps0 where
      c: "?r = create_with d requester newId now body ps0" ..
    from that(3) have close: "\<bar>totalPercentage ?cs - 100\<bar> \<le> 1 / 100"
      by (simp add: totalPercentage_sum)
    from create_with_percentage_success [OF ty range close valid, of d requester newId now ps0]
    obtain e where
      r: "create_with d requester newId now body ps0 =
            (Inr e, d\<lparr>db_expenses := AList.update newId e (db_expenses d)\<rparr>)"
      and e: "exp_amount e = body_amount body"
        "map split_user (exp_splits e) = map cs_userId ?cs"
        "map split_amount (exp_splits e) = map (\<lambda>s. body_amount body * cs_percentage s / 100) ?cs"
      by blast
    show ?thesis unfolding c r using e by (simp add: update_conv')
  qed
  have never: "isl (fst ?r)" if range: "\<not> percentages_in_range ?cs"
  proof (cases "admitted d requester body")
    case True
    from createExpense_admitted [OF True, of newId now] obtain ps0 where
      "?r = create_with d requester newId now body ps0" ..
    then show ?thesis by (simp add: create_with_percentage_out_of_range [OF ty range])
  next
    case False
    then show ?thesis by (rule createExpense_not_admitted)
  qed
  from atomic rejected created never show ?thesis by blast
qed


text \<open>Percentages 50, 30 and 20 of 100 are stored as 50, 30 and 20; percentages summing to
  99.5 are rejected and nothing is written.\<close>

lemma fields_valid_lunch:
  "fields_valid fair_percentages \<and> fields_valid short_percentages \<and>
   fields_valid lopsided_percentages"
  by (simp add: fields_valid_def fair_percentages_def short_percentages_def
      lopsided_percentages_def trim_def space1_def space2_def space3_def)

theorem percentage_validation_witness:
  "body_splitType fair_percentages = ''percentage'' \<and> admitted ledger ''A'' fair_percentages \<and>
   percentages_in_range (body_customSplits fair_percentages) \<and>
   sum_list (map cs_percentage (body_customSplits fair_percentages)) = 100 \<and>
   fields_valid fair_percentages \<and>
   \<not> isl (fst (createExpense ledger ''A'' ''e2'' 9 fair_percentages)) \<and>
   map_of (db_expenses (snd (createExpense ledger ''A'' ''e2'' 9 fair_percentages))) ''e2''
     = Some (projr (fst (createExpense ledger ''A'' ''e2'' 9 fair_percentages))) \<and>
   map split_amount (exp_splits (projr (fst (createExpense ledger ''A'' ''e2'' 9 fair_percentages))))
     = [50, 30, 20] \<and>
   body_splitType short_percentages = ''percentage'' \<and> admitted ledger ''A'' short_percentages \<and>
   percentages_in_range (body_customSplits short_percentages) \<and>
   sum_list (map cs_percentage (body_customSplits short_percentages)) = 99 + 1 / 2 \<and>
   fst (createExpense ledger ''A'' ''e2'' 9 short_percentages) = Inl percent_error \<and>
   snd (createExpense ledger ''A'' ''e2'' 9 short_percentages) = ledger"
proof -
  have ty: "body_splitType fair_percentages = ''percentage''" by (simp add: fair_percentages_def)
  have adm: "admitted ledger ''A'' fair_percentages"
    by (simp add: admitted_def fair_percentages_def ledger_def trip_def isMember_def)
  have rg: "percentages_in_range (body_customSplits fair_percentages)"
    by (simp add: percentages_in_range_def fair_percentages_def)
  have s: "sum_list (map cs_percentage (body_customSplits fair_percentages)) = 100"
    by (simp add: fair_percentages_def)
  have fv: "fields_valid fair_percentages" by (simp add: fields_valid_lunch)
  have ty': "body_splitType short_percentages = ''percentage''"
    by (simp add: short_percentages_def)
  have adm': "admitted ledger ''A'' short_percentages"
    by (simp add: admitted_def short_percentages_def ledger_def trip_def isMember_def)
  have rg': "percentages_in_range (body_customSplits short_percentages)"
    by (simp add: percentages_in_range_def short_percentages_def)
  have s': "sum_list (map cs_percentage (body_customSplits short_percentages)) = 99 + 1 / 2"
    by (simp add: short_percentages_def)
  have amounts: "map (\<lambda>s. body_amount fair_percentages * cs_percentage s / 100)
                   (body_customSplits fair_percentages) = [50, 30, 20]"
    by (simp add: fair_percentages_def)
  from percentage_validation [OF ty, where d = ledger and requester = "''A''"
      and newId = "''e2''" and now = 9] adm rg s fv
  have ok: "\<not> isl (fst (createExpense ledger ''A'' ''e2'' 9 fair_percentages)) \<and>
   map_of (db_expenses (snd (createExpense ledger ''A'' ''e2'' 9 fair_percentages))) ''e2''
     = Some (projr (fst (createExpense ledger ''A'' ''e2'' 9 fair_percentages))) \<and>
   map split_amount (exp_splits (projr (fst (createExpense ledger ''A'' ''e2'' 9 fair_percentages))))
     = [50, 30, 20]"
    by (simp add: amounts)
  from percentage_validation [OF ty', where d = ledger and requester = "''A''"
      and newId = "''e2''" and now = 9] adm' rg' s'
  have no: "fst (createExpense ledger ''A'' ''e2'' 9 short_percentages) = Inl percent_error \<and>
   snd (createExpense ledger ''A'' ''e2'' 9 short_percentages) = ledger"
    by simp
  from ty adm rg s fv ok ty' adm' rg' s' no show ?thesis by blast
qed

text \<open>Claim C7 as stated fails: the percentages 150 and \<open>-50\<close> sum to exactly 100, and the
  request is answered with 500 and nothing is written, since the schema refuses both
  percentages.\<close>

theorem in_tolerance_failure_counterexample:
  "body_splitType lopsided_percentages = ''percentage'' \<and>
   admitted ledger ''A'' lopsided_percentages \<and> fields_valid lopsided_percentages \<and>
   sum_list (map cs_percentage (body_customSplits lopsided_percentages)) = 100 \<and>
   fst (createExpense ledger ''A'' ''e2'' 9 lopsided_percentages) = Inl ServerError \<and>
   snd (createExpense ledger ''A'' ''e2'' 9 lopsided_percentages) = ledger"
proof -
  have "createExpense ledger ''A'' ''e2'' 9 lopsided_percentages = (Inl ServerError, ledger)"
    by (simp add: create_defs ledger_def trip_def lopsided_percentages_def Let_def)
  moreover have "admitted ledger ''A'' lopsided_percentages"
    by (simp add: admitted_def lopsided_percentages_def ledger_def trip_def isMember_def)
  moreover have "sum_list (map cs_percentage (body_customSplits lopsided_percentages)) = 100"
    by (simp add: lopsided_percentages_def)
  moreover have "body_splitType lopsided_percentages = ''percentage''"
    by (simp add: lopsided_percentages_def)
  ultimately show ?thesis by (simp add: fields_valid_lunch)
qed

section \<open>Marking a split as paid\<close>

lemma set_paid_isPaid: "map split_isPaid (set_paid u ss) = map split_isPaid ss"
  by (induction ss) simp_all

text \<open>
  Claim C10 (mark-split-as-paid leaves \<^verbatim>\<open>isPaid\<close> unchanged). For every stored expense
  and every user id, when \<^verbatim>\<open>markSplitAsPaid\<close> of the controller answers with success,
  the \<^verbatim>\<open>isPaid\<close> flags of the expense's splits, in the response and in the collection,
  are the flags the expense had before.
\<close>

theorem markSplitAsPaid_leaves_isPaid:
  assumes found: "map_of (db_expenses d) eid = Some e"
    and success: "markSplitAsPaid d requester eid uid now = (Inr e', d')"
  shows "map split_isPaid (exp_splits e') = map split_isPaid (exp_splits e) \<and>
         map_of (db_expenses d') eid = Some e'"
proof -
  from found success
  have "save_expense d eid now (e\<lparr>exp_splits := set_paid uid (exp_splits e)\<rparr>) = Some (e', d')"
    by (auto simp: markSplitAsPaid_def split: if_splits option.splits)
  from save_expense_Some [OF this] show ?thesis
    by (simp add: persisted_isPaid set_paid_isPaid)
qed

text \<open>\<open>A\<close> marks the split of \<open>B\<close> in the dinner as paid: the answer is success and the three
  flags are still false.\<close>

theorem markSplitAsPaid_leaves_isPaid_witness:
  "map_of (db_expenses ledger) ''e1'' = Some dinner_expense \<and>
   \<not> isl (fst (markSplitAsPaid ledger ''A'' ''e1'' ''B'' 9)) \<and>
   map_option (map split_isPaid \<circ> exp_splits)
     (map_of (db_expenses (snd (markSplitAsPaid ledger ''A'' ''e1'' ''B'' 9))) ''e1'')
     = Some [False, False, False]"
proof -
  have h1: "map_of (db_expenses ledger) ''e1'' = Some dinner_expense" by (simp add: ledger_def)
  obtain e' d' where r: "markSplitAsPaid ledger ''A'' ''e1'' ''B'' 9 = (Inr e', d')"
    by (simp add: markSplitAsPaid_def ledger_def dinner_expense_def trip_def isMember_def
        save_expense_def validate_expense_def valid_split_def Let_def)
  from markSplitAsPaid_leaves_isPaid [OF h1 r] h1 r show ?thesis
    by (simp add: dinner_expense_def)
qed

section \<open>Settlement status updates\<close>

lemmas settlement_defs = updateSettlementStatus_def save_settlement_def validate_settlement_def
  apply_body_def markCompleted_def cancel_def

lemma apply_body_frame:
  "fromUser (apply_body now body s) = fromUser s \<and> toUser (apply_body now body s) = toUser s \<and>
   amount (apply_body now body s) = amount s \<and> group (apply_body now body s) = group s \<and>
   currency (apply_body now body s) = currency s"
  by (simp add: apply_body_def Let_def markCompleted_def cancel_def split: option.splits)

lemma apply_body_status:
  "body_status body = Some st \<Longrightarrow> st \<noteq> [] \<Longrightarrow> status (apply_body now body s) = st"
  by (simp add: apply_body_def Let_def markCompleted_def cancel_def split: option.splits)

lemma apply_body_method:
  "pay_method (apply_body now body s) =
     (case body_method body of Some m \<Rightarrow> if m \<noteq> [] then m else pay_method s
      | None \<Rightarrow> pay_method s)"
  by (simp add: apply_body_def Let_def markCompleted_def cancel_def split: option.splits)

lemma save_settlement_Some:
  "save_settlement d sid now s = Some (s', d') \<Longrightarrow>
     s' = s\<lparr>updatedAt := now\<rparr> \<and> map_of (db_settlements d') sid = Some s'"
  by (auto simp: save_settlement_def update_conv' Let_def split: if_splits)

lemma save_settlement_valid:
  "validate_settlement s \<Longrightarrow>
     save_settlement d sid now s =
       Some (s\<lparr>updatedAt := now\<rparr>,
             d\<lparr>db_settlements := AList.update sid (s\<lparr>updatedAt := now\<rparr>) (db_settlements d)\<rparr>)"
  by (simp add: save_settlement_def Let_def)

text \<open>What a party's update stores and answers, for a document that passes validation.\<close>

lemma updateSettlementStatus_store:
  assumes found: "map_of (db_settlements d) sid = Some s"
    and party: "requester = fromUser s \<or> requester = toUser s"
    and valid: "validate_settlement (apply_body now body s)"
  shows "map_of (db_settlements (snd (updateSettlementStatus d requester sid now body))) sid
           = Some ((apply_body now body s)\<lparr>updatedAt := now\<rparr>)"
  using assms
  by (auto simp: updateSettlementStatus_def save_settlement_valid update_conv')

lemma updateSettlementStatus_single_save:
  assumes found: "map_of (db_settlements d) sid = Some s"
    and party: "requester = fromUser s \<or> requester = toUser s"
    and valid: "validate_settlement (apply_body now body s)"
    and other: "body_status body \<noteq> Some ''completed''" "body_status body \<noteq> Some ''cancelled''"
  shows "fst (updateSettlementStatus d requester sid now body)
           = Inr ((apply_body now body s)\<lparr>updatedAt := now\<rparr>)"
  using assms
  by (auto simp: updateSettlementStatus_def save_settlement_valid)

lemma updateSettlementStatus_double_save:
  assumes found: "map_of (db_settlements d) sid = Some s"
    and party: "requester = fromUser s \<or> requester = toUser s"
    and twice: "body_status body = Some ''completed'' \<or> body_status body = Some ''cancelled''"
  shows "fst (updateSettlementStatus d requester sid now body) = Inl ServerError"
  using assms by (auto simp: updateSettlementStatus_def)

text \<open>
  Claim C3 (terminal-state rejection), as amended. A status update does not depend on the
  current status: for every stored settlement, be it pending, completed or cancelled, an
  update by one of its two parties that asks for any of the three statuses, with no
  method or one of the schema's methods, stores the status asked for; and a request for
  pending is answered with success.
\<close>

theorem status_update_ignores_current_state:
  assumes found: "map_of (db_settlements d) sid = Some s"
    and party: "requester = fromUser s \<or> requester = toUser s"
    and valid: "validate_settlement s"
    and target: "body_status body = Some st" "st \<in> set [''pending'', ''completed'', ''cancelled'']"
    and meth: "body_method body \<in>
               set (None # map Some [''cash'', ''bank_transfer'', ''digital_wallet'', ''other''])"
  shows "map_option status
           (map_of (db_settlements (snd (updateSettlementStatus d requester sid now body))) sid)
           = Some st \<and>
         (st = ''pending'' \<longrightarrow> \<not> isl (fst (updateSettlementStatus d requester sid now body)))"
proof -
  let ?s = "apply_body now body s"
  from target have ne: "st \<noteq> []" by auto
  have "pay_method ?s \<in> set [''cash'', ''bank_transfer'', ''digital_wallet'', ''other'']"
    using valid meth by (auto simp: apply_body_method validate_settlement_def)
  then have v: "validate_settlement ?s"
    using valid target
    by (simp add: validate_settlement_def apply_body_frame apply_body_status [OF target(1) ne])
  have stored: "map_option status
           (map_of (db_settlements (snd (updateSettlementStatus d requester sid now body))) sid)
           = Some st"
    by (simp add: updateSettlementStatus_store [OF found party v]
        apply_body_status [OF target(1) ne])
  have "\<not> isl (fst (updateSettlementStatus d requester sid now body))" if "st = ''pending''"
    using updateSettlementStatus_single_save [OF found party v] target(1) that by simp
  with stored show ?thesis by blast
qed

text \<open>The completed settlement between \<open>A\<close> and \<open>B\<close> is cancelled by \<open>A\<close>, and is set back
  to pending by \<open>A\<close>.\<close>

theorem status_update_ignores_current_state_witness:
  "map_of (db_settlements ledger) ''s1'' = Some paid_debt \<and>
   (''A'' = fromUser paid_debt \<or> ''A'' = toUser paid_debt) \<and>
   validate_settlement paid_debt \<and> status paid_debt = ''completed'' \<and>
   map_option status
     (map_of (db_settlements (snd (updateSettlementStatus ledger ''A'' ''s1'' 5 cancel_request))) ''s1'')
     = Some ''cancelled'' \<and>
   map_option status
     (map_of (db_settlements (snd (updateSettlementStatus ledger ''A'' ''s1'' 5 reopen_request))) ''s1'')
     = Some ''pending'' \<and>
   \<not> isl (fst (updateSettlementStatus ledger ''A'' ''s1'' 5 reopen_request))"
proof -
  have h1: "map_of (db_settlements ledger) ''s1'' = Some paid_debt" by (simp add: ledger_def)
  have h2: "''A'' = fromUser paid_debt \<or> ''A'' = toUser paid_debt" by (simp add: paid_debt_def)
  have h3: "validate_settlement paid_debt" by (simp add: validate_settlement_def paid_debt_def)
  have h4: "body_status cancel_request = Some ''cancelled''" by (simp add: cancel_request_def)
  have h5: "''cancelled'' \<in> set [''pending'', ''completed'', ''cancelled'']" by simp
  have h6: "body_method cancel_request \<in>
              set (None # map Some [''cash'', ''bank_transfer'', ''digital_wallet'', ''other''])"
    by (simp add: cancel_request_def)
  have k4: "body_status reopen_request = Some ''pending''" by (simp add: reopen_request_def)
  have k5: "''pending'' \<in> set [''pending'', ''completed'', ''cancelled'']" by simp
  have k6: "body_method reopen_request \<in>
              set (None # map Some [''cash'', ''bank_transfer'', ''digital_wallet'', ''other''])"
    by (simp add: reopen_request_def)
  from status_update_ignores_current_state [OF h1 h2 h3 h4 h5 h6, of 5]
    status_update_ignores_current_state [OF h1 h2 h3 k4 k5 k6, of 5] h1 h2 h3
  show ?thesis by (simp add: paid_debt_def)
qed

text \<open>Claim C3 as stated fails: after \<open>A\<close> asks to cancel the completed settlement, the
  stored status is cancelled; the answer is the 500 of the \<^verbatim>\<open>catch\<close> block.\<close>

theorem completed_then_cancelled_counterexample:
  "map_option status (map_of (db_settlements ledger) ''s1'') = Some ''completed'' \<and>
   fst (updateSettlementStatus ledger ''A'' ''s1'' 5 cancel_request) = Inl ServerError \<and>
   map_option status
     (map_of (db_settlements (snd (updateSettlementStatus ledger ''A'' ''s1'' 5 cancel_request))) ''s1'')
     = Some ''cancelled''"
  by (simp add: settlement_defs ledger_def paid_debt_def cancel_request_def Let_def)

text \<open>
  Claim C9 (settlement frame). For every stored settlement and every status update on it
  that is answered with success, \<^verbatim>\<open>fromUser\<close>, \<^verbatim>\<open>toUser\<close>, \<^verbatim>\<open>amount\<close> and
  \<^verbatim>\<open>group\<close> of the settlement returned and stored are those it had before.
\<close>

theorem status_update_frame:
  assumes found: "map_of (db_settlements d) sid = Some s"
    and success: "updateSettlementStatus d requester sid now body = (Inr s', d')"
  shows "fromUser s' = fromUser s \<and> toUser s' = toUser s \<and> amount s' = amount s \<and>
         group s' = group s \<and> map_of (db_settlements d') sid = Some s'"
proof -
  from found success have "save_settlement d sid now (apply_body now body s) = Some (s', d')"
    by (auto simp: updateSettlementStatus_def split: if_splits option.splits)
  from save_settlement_Some [OF this] show ?thesis
    by (simp add: apply_body_frame)
qed

text \<open>\<open>B\<close> records the method and a note on the settlement: the amount stored is still
  100.\<close>

theorem status_update_frame_witness:
  "map_of (db_settlements ledger) ''s1'' = Some paid_debt \<and>
   \<not> isl (fst (updateSettlementStatus ledger ''B'' ''s1'' 7 note_request)) \<and>
   map_option amount
     (map_of (db_settlements (snd (updateSettlementStatus ledger ''B'' ''s1'' 7 note_request))) ''s1'')
     = Some 100"
proof -
  have h1: "map_of (db_settlements ledger) ''s1'' = Some paid_debt" by (simp add: ledger_def)
  obtain s' d' where r: "updateSettlementStatus ledger ''B'' ''s1'' 7 note_request = (Inr s', d')"
    by (simp add: settlement_defs ledger_def paid_debt_def note_request_def Let_def)
  from status_update_frame [OF h1 r] h1 r show ?thesis by (simp add: paid_debt_def)
qed

text \<open>Whatever the answer, the settlement stored under the id keeps the four fields.\<close>

lemma status_update_store_frame:
  assumes found: "map_of (db_settlements d) sid = Some s"
  shows "\<exists>s''. map_of (db_settlements (snd (updateSettlementStatus d requester sid now body))) sid
                 = Some s'' \<and>
               fromUser s'' = fromUser s \<and> toUser s'' = toUser s \<and> amount s'' = amount s \<and>
               group s'' = group s"
proof (cases "save_settlement d sid now (apply_body now body s)")
  case None
  with found show ?thesis by (auto simp: updateSettlementStatus_def)
next
  case (Some r)
  obtain s' d' where r: "r = (s', d')" by (cases r)
  from save_settlement_Some [OF Some [unfolded r]]
  have "s' = (apply_body now body s)\<lparr>updatedAt := now\<rparr>" "map_of (db_settlements d') sid = Some s'"
    by simp_all
  with found Some r show ?thesis
    by (auto simp: updateSettlementStatus_def apply_body_frame)
qed

end
